theory Spec2Isabelle
  imports Main
begin

section \<open>The signal relay of \<^verbatim>\<open>express-redis-server/server.js\<close>\<close>

text \<open>
  The program is one file: an Express application with the JSON body parser as its only
  middleware, one route \<^verbatim>\<open>POST /signal\<close> whose handler publishes the request body on
  a Redis channel, an \<^verbatim>\<open>'error'\<close> listener on the Redis client, and a start-up
  function that connects the client and then opens the HTTP listener.

  The embedding records what an execution does as a list of events, in the order in which
  they happen. What the program's surroundings decide is an explicit input: how the two
  awaited promises settle (\<^verbatim>\<open>client.connect()\<close>, \<^verbatim>\<open>client.publish(...)\<close>), whether the
  port can be bound, what a request carries, and two facts of the runtime: the text it
  prints for a number and how deep a value its stack lets \<^verbatim>\<open>JSON.stringify\<close> descend.
\<close>

subsection \<open>Strings and JSON values\<close>

text \<open>
  A JavaScript string is a sequence of UTF-16 code units. \<open>units\<close> turns the ASCII text of
  a literal into one.
\<close>

type_synonym jstring = "nat list"

definition units :: "string \<Rightarrow> jstring" where
  "units s = map of_char s"

text \<open>
  A parsed request body. The type \<open>'n\<close> stands for JavaScript's numbers; an object is the
  list of its properties in enumeration order.
\<close>

datatype 'n json =
    JNull
  | JBool bool
  | JNumber 'n
  | JString jstring
  | JArray "'n json list"
  | JObject "(jstring \<times> 'n json) list"

text \<open>Objects and arrays, as opposed to the primitive values.\<close>

fun is_structured :: "'n json \<Rightarrow> bool" where
  "is_structured (JArray vs) = True"
| "is_structured (JObject ps) = True"
| "is_structured _ = False"

text \<open>How many levels of arrays and objects lie inside a value.\<close>

fun nesting :: "'n json \<Rightarrow> nat" where
  "nesting (JArray vs) = (case vs of [] \<Rightarrow> 0 | _ \<Rightarrow> Suc (foldr max (map nesting vs) 0))"
| "nesting (JObject ps) =
     (case ps of [] \<Rightarrow> 0 | _ \<Rightarrow> Suc (foldr max (map (\<lambda>(k, v). nesting v) ps) 0))"
| "nesting _ = 0"

subsection \<open>\<^verbatim>\<open>JSON.stringify\<close>\<close>

text \<open>
  The quotation of a string (QuoteJSONString of the language specification). It goes
  through the string by code points: a high surrogate followed by a low one is one code
  point and is copied; a surrogate on its own is written \<^verbatim>\<open>\udxxx\<close>; the double quote, the
  backslash and the control characters below U+0020 are escaped, the latter as
  \<^verbatim>\<open>\b \t \n \f \r\<close> or \<^verbatim>\<open>\u00xx\<close>; the hexadecimal digits are lowercase.
\<close>

definition hex_digit :: "nat \<Rightarrow> nat" where
  "hex_digit d = (if d < 10 then 48 + d else 87 + d)"

definition UnicodeEscape :: "nat \<Rightarrow> jstring" where
  "UnicodeEscape c =
     units [CHR 0x5C, CHR ''u''] @
     [hex_digit (c div 4096 mod 16), hex_digit (c div 256 mod 16),
      hex_digit (c div 16 mod 16), hex_digit (c mod 16)]"

definition is_high :: "nat \<Rightarrow> bool" where
  "is_high c = (0xD800 \<le> c \<and> c \<le> 0xDBFF)"

definition is_low :: "nat \<Rightarrow> bool" where
  "is_low c = (0xDC00 \<le> c \<and> c \<le> 0xDFFF)"

definition quote_unit :: "nat \<Rightarrow> jstring" where
  "quote_unit c =
     (if c = 0x08 then units [CHR 0x5C, CHR ''b'']
      else if c = 0x09 then units [CHR 0x5C, CHR ''t'']
      else if c = 0x0A then units [CHR 0x5C, CHR ''n'']
      else if c = 0x0C then units [CHR 0x5C, CHR ''f'']
      else if c = 0x0D then units [CHR 0x5C, CHR ''r'']
      else if c = 0x22 then units [CHR 0x5C, CHR 0x22]
      else if c = 0x5C then units [CHR 0x5C, CHR 0x5C]
      else if c < 0x20 \<or> is_high c \<or> is_low c then UnicodeEscape c
      else [c])"

fun quote_units :: "jstring \<Rightarrow> jstring" where
  "quote_units [] = []"
| "quote_units [c] = quote_unit c"
| "quote_units (c # d # cs) =
     (if is_high c \<and> is_low d then c # d # quote_units cs
      else quote_unit c @ quote_units (d # cs))"

definition QuoteJSONString :: "jstring \<Rightarrow> jstring" where
  "QuoteJSONString s = [0x22] @ quote_units s @ [0x22]"

text \<open>
  Reading a quoted string back. \<open>unquote\<close> is not part of the program: it is the inverse
  of \<open>QuoteJSONString\<close> (after the opening quotation mark), used below to show that the
  serialization of a value loses nothing. It reads up to the closing quotation mark and
  returns the string read and the text after the mark.
\<close>

definition unhex :: "nat \<Rightarrow> nat" where
  "unhex d = (if d \<le> 57 then d - 48 else d - 87)"

definition unescape :: "nat \<Rightarrow> nat" where
  "unescape v =
     (if v = 98 then 8 else if v = 116 then 9 else if v = 110 then 10
      else if v = 102 then 12 else if v = 114 then 13 else v)"

fun unquote :: "jstring \<Rightarrow> (jstring \<times> jstring) option" where
  "unquote [] = None"
| "unquote (u # us) =
     (if u = 34 then Some ([], us)
      else if u = 92 then
        (case us of
           [] \<Rightarrow> None
         | v # vs \<Rightarrow>
             if v = 117 then
               (case vs of
                  a # b # c # d # ws \<Rightarrow>
                    map_option
                      (\<lambda>(s, r). ((4096 * unhex a + 256 * unhex b + 16 * unhex c + unhex d) # s, r))
                      (unquote ws)
                | _ \<Rightarrow> None)
             else map_option (\<lambda>(s, r). (unescape v # s, r)) (unquote vs))
      else if is_high u then
        (case us of
           [] \<Rightarrow> None
         | d # ws \<Rightarrow> map_option (\<lambda>(s, r). (u # d # s, r)) (unquote ws))
      else map_option (\<lambda>(s, r). (u # s, r)) (unquote us))"

text \<open>
  The text of a value: \<^verbatim>\<open>JSON.stringify(value)\<close> with one argument (no replacer, no
  indentation), on values that came out of \<^verbatim>\<open>JSON.parse\<close> (no \<^verbatim>\<open>undefined\<close>, no functions,
  no cycles). The text of a number is the parameter \<open>num\<close>.
\<close>

fun join_with :: "jstring \<Rightarrow> jstring list \<Rightarrow> jstring" where
  "join_with sep [] = []"
| "join_with sep [x] = x"
| "join_with sep (x # y # ys) = x @ sep @ join_with sep (y # ys)"

fun serialize :: "('n \<Rightarrow> jstring) \<Rightarrow> 'n json \<Rightarrow> jstring" where
  "serialize num JNull = units ''null''"
| "serialize num (JBool b) = (if b then units ''true'' else units ''false'')"
| "serialize num (JNumber n) = num n"
| "serialize num (JString s) = QuoteJSONString s"
| "serialize num (JArray vs) =
     units ''['' @ join_with (units '','') (map (serialize num) vs) @ units '']''"
| "serialize num (JObject ps) =
     units ''{'' @ join_with (units '','')
        (map (\<lambda>(k, v). QuoteJSONString k @ units '':'' @ serialize num v) ps) @ units ''}''"

text \<open>
  \<^verbatim>\<open>JSON.stringify\<close> prints a finite number with the characters of
  \<^verbatim>\<open>Number.prototype.toString\<close>: digits, the sign, the decimal point and the exponent mark
  (\<^verbatim>\<open>10\<close>, \<^verbatim>\<open>-0.5\<close>, \<^verbatim>\<open>1e+21\<close>). It prints the infinities, which the parser produces
  from a literal such as \<^verbatim>\<open>1e999\<close>, as \<^verbatim>\<open>null\<close>. \<open>numeric num v\<close>: every number in \<open>v\<close> is
  printed by \<open>num\<close> as a non-empty text of number characters.
\<close>

definition number_unit :: "nat \<Rightarrow> bool" where
  "number_unit c = (c \<in> set (units ''0123456789+-.e''))"

definition numeric_text :: "jstring \<Rightarrow> bool" where
  "numeric_text t = (t \<noteq> [] \<and> list_all number_unit t)"

fun numeric :: "('n \<Rightarrow> jstring) \<Rightarrow> 'n json \<Rightarrow> bool" where
  "numeric num (JNumber n) = numeric_text (num n)"
| "numeric num (JArray vs) = list_all (numeric num) vs"
| "numeric num (JObject ps) = list_all (\<lambda>(k, v). numeric num v) ps"
| "numeric num v = True"

text \<open>
  The runtime: the text it gives a number, and the deepest nesting its stack lets
  \<^verbatim>\<open>JSON.stringify\<close> serialize. The function calls itself once for each level of arrays
  and objects inside the value; on a deeper value the stack is exhausted and
  \<^verbatim>\<open>JSON.stringify\<close> throws a \<^verbatim>\<open>RangeError\<close>. An error value is represented by its message.
\<close>

type_synonym js_error = string

record 'n runtime =
  number_text :: "'n \<Rightarrow> jstring"
  stack_depth :: nat

definition JSON_stringify :: "'n runtime \<Rightarrow> 'n json \<Rightarrow> js_error + jstring" where
  "JSON_stringify rt v =
     (if stack_depth rt < nesting v
      then Inl ''RangeError: Maximum call stack size exceeded''
      else Inr (serialize (number_text rt) v))"

subsection \<open>Promises, events and requests\<close>

text \<open>
  A promise the program awaits is fulfilled, rejected with an error, or never settles.
  \<^verbatim>\<open>await\<close> returns in the first case, throws the error in the second and does not come
  back in the third.
\<close>

datatype 'a promise = Fulfilled 'a | Rejected js_error | Pending

text \<open>How a function body ends: it returns, an exception leaves it, or it stays suspended.\<close>

datatype completion = Returns | Throws js_error | Hangs

text \<open>
  What the JSON body parser hands on: \<^verbatim>\<open>next()\<close> with \<^verbatim>\<open>req.body\<close> set, or
  \<^verbatim>\<open>next(err)\<close> with the HTTP status the error carries.
\<close>

datatype 'n mw = Next "'n json" | NextError nat

datatype 'n printed = Value "'n json" | Thrown js_error

text \<open>
  The events of an execution. \<open>Send\<close> is a response written by the program
  (\<^verbatim>\<open>res.status(s).send(text)\<close>). The responses Express writes itself are \<open>Finalhandler\<close>,
  when no route matches (404) or a middleware passed an error and the application has no
  error-handling middleware (the error's status), and \<open>ExpressOptions\<close>, its answer (200,
  with the methods allowed) to an \<^verbatim>\<open>OPTIONS\<close> request for a path that has a route.
  \<open>ExpressLogsError\<close> is the line Express writes to the error log for an error it answers.
  \<open>Uncaught\<close> is the error that ends the process.
\<close>

datatype 'n event =
    BodyParser "'n mw"
  | ConsoleLog string "'n printed list"
  | ConsoleError string "'n printed list"
  | StringifyThrew js_error
  | Publish string jstring
  | AwaitReturned
  | AwaitThrew js_error
  | Send nat string
  | Finalhandler nat
  | ExpressOptions "string list"
  | ExpressLogsError nat
  | Connect
  | Listen nat
  | Listening
  | Uncaught js_error

text \<open>
  A request as the body parser and the router see it. \<open>has_body\<close>: the request announces
  a body (a \<^verbatim>\<open>Content-Length\<close> or a \<^verbatim>\<open>Transfer-Encoding\<close>). \<open>json_type\<close>: its
  \<^verbatim>\<open>Content-Type\<close> is \<^verbatim>\<open>application/json\<close>. \<open>encoding_supported\<close>: its charset is a UTF
  and its \<^verbatim>\<open>Content-Encoding\<close> one the parser reads. \<open>body_length\<close>: the bytes of the body, once decompressed.
  \<open>body_text\<close>: what \<^verbatim>\<open>JSON.parse\<close> makes of the body's text, a syntax error or a value.
  Method and path are taken as the router compares them with a route (it ignores the case
  of the path and a trailing slash). A request that is aborted while its body is read is
  not modelled.
\<close>

datatype 'n parse = Malformed | Json "'n json"

record 'n request =
  req_method :: string
  req_path :: string
  has_body :: bool
  json_type :: bool
  encoding_supported :: bool
  body_length :: nat
  body_text :: "'n parse"

subsection \<open>The application\<close>

text \<open>
  \<^verbatim>\<open>app.use(express.json())\<close>, called without options, as in Express 4. The parser sets
  \<^verbatim>\<open>req.body\<close> to the empty object and leaves it so when the request has no body or is not
  of the JSON type. Otherwise it refuses an unsupported charset or encoding with status
  415 and a body of more than 100 kilobytes (102400 bytes) with status 413; an empty body
  stays the empty object; and in its strict mode it reads objects and arrays only: a text
  that \<^verbatim>\<open>JSON.parse\<close> rejects, or that is a bare primitive, is refused with status 400.
\<close>

definition body_limit :: nat where
  "body_limit = 102400"

definition express_json :: "'n request \<Rightarrow> 'n mw" where
  "express_json req =
     (if \<not> has_body req \<or> \<not> json_type req then Next (JObject [])
      else if \<not> encoding_supported req then NextError 415
      else if body_limit < body_length req then NextError 413
      else if body_length req = 0 then Next (JObject [])
      else (case body_text req of
              Malformed \<Rightarrow> NextError 400
            | Json v \<Rightarrow> if is_structured v then Next v else NextError 400))"

text \<open>The routes the file registers: \<^verbatim>\<open>app.post('/signal', ...)\<close> and no other.\<close>

definition routes :: "(string \<times> string) list" where
  "routes = [(''POST'', ''/signal'')]"

definition allowed :: "string \<Rightarrow> string list" where
  "allowed path = map fst (filter (\<lambda>r. snd r = path) routes)"

text \<open>
  The handler:
  \<^verbatim>\<open>
  try {
      const signal = req.body;
      console.log('Received signal:', signal);
      await client.publish('trading-signals', JSON.stringify(signal));
      res.status(200).send('Signal received and published');
  } catch (error) {
      console.error('Error publishing signal:', error);
      res.status(500).send('Error publishing signal');
  }
  \<close>
  The argument of \<^verbatim>\<open>client.publish\<close> is evaluated first: when \<^verbatim>\<open>JSON.stringify\<close> throws,
  no publish call is made and the \<^verbatim>\<open>catch\<close> block runs at once. Otherwise the call is
  made and the handler is suspended at the \<^verbatim>\<open>await\<close>; it goes on when the promise of
  \<^verbatim>\<open>client.publish\<close> settles. The value a fulfilled publish carries is the number of
  clients that received the message; the handler ignores it.
\<close>

datatype 'n pipeline = Responded "'n event list" | Awaiting "'n event list"

definition catch_block :: "js_error \<Rightarrow> 'n event list" where
  "catch_block error =
     [ConsoleError ''Error publishing signal:'' [Thrown error],
      Send 500 ''Error publishing signal'']"

definition try_until_await :: "'n runtime \<Rightarrow> 'n json \<Rightarrow> 'n event list \<times> completion" where
  "try_until_await rt signal =
     (case JSON_stringify rt signal of
        Inl error \<Rightarrow>
          ([ConsoleLog ''Received signal:'' [Value signal], StringifyThrew error], Throws error)
      | Inr message \<Rightarrow>
          ([ConsoleLog ''Received signal:'' [Value signal],
            Publish ''trading-signals'' message], Hangs))"

definition try_after_await :: "nat promise \<Rightarrow> 'n event list \<times> completion" where
  "try_after_await ack =
     (case ack of
        Fulfilled receivers \<Rightarrow>
          ([AwaitReturned, Send 200 ''Signal received and published''], Returns)
      | Rejected error \<Rightarrow> ([AwaitThrew error], Throws error)
      | Pending \<Rightarrow> ([], Hangs))"

text \<open>The handler up to its \<^verbatim>\<open>await\<close>, or to its end when it does not get there.\<close>

definition handler_start :: "'n runtime \<Rightarrow> 'n json \<Rightarrow> 'n pipeline" where
  "handler_start rt signal =
     (case try_until_await rt signal of
        (tr, Throws error) \<Rightarrow> Responded (tr @ catch_block error)
      | (tr, c) \<Rightarrow> Awaiting tr)"

text \<open>The handler from its \<^verbatim>\<open>await\<close> on.\<close>

definition handler_resume :: "nat promise \<Rightarrow> 'n event list \<times> completion" where
  "handler_resume ack =
     (case try_after_await ack of
        (tr, Throws error) \<Rightarrow> (tr @ catch_block error, Returns)
      | (tr, c) \<Rightarrow> (tr, c))"

definition signal_handler ::
    "'n runtime \<Rightarrow> nat promise \<Rightarrow> 'n json \<Rightarrow> 'n event list \<times> completion" where
  "signal_handler rt ack signal =
     (case handler_start rt signal of
        Responded tr \<Rightarrow> (tr, Returns)
      | Awaiting tr \<Rightarrow> (case handler_resume ack of (tr', c) \<Rightarrow> (tr @ tr', c)))"

text \<open>
  One request through the application, up to the point where it is answered or the handler
  is suspended: the body parser first, then the router. The application registers no
  error-handling middleware, so an error from the parser is answered by Express, which
  also writes it to the error log. A request that matches no route is answered by Express
  with 404, or, when it is an \<^verbatim>\<open>OPTIONS\<close> request for a path that has a route, with 200.
\<close>

definition express_pipeline :: "'n runtime \<Rightarrow> 'n request \<Rightarrow> 'n pipeline" where
  "express_pipeline rt req =
     (case express_json req of
        NextError status \<Rightarrow>
          Responded [BodyParser (NextError status), Finalhandler status, ExpressLogsError status]
      | Next parsed \<Rightarrow>
          (if (req_method req, req_path req) \<in> set routes
           then (case handler_start rt parsed of
                   Responded tr \<Rightarrow> Responded (BodyParser (Next parsed) # tr)
                 | Awaiting tr \<Rightarrow> Awaiting (BodyParser (Next parsed) # tr))
           else if req_method req = ''OPTIONS'' \<and> allowed (req_path req) \<noteq> []
           then Responded [BodyParser (Next parsed), ExpressOptions (allowed (req_path req))]
           else Responded [BodyParser (Next parsed), Finalhandler 404]))"

text \<open>One request from arrival to its end, given how its publish call settles.\<close>

definition app ::
    "'n runtime \<Rightarrow> nat promise \<Rightarrow> 'n request \<Rightarrow> 'n event list \<times> completion" where
  "app rt ack req =
     (case express_pipeline rt req of
        Responded tr \<Rightarrow> (tr, Returns)
      | Awaiting tr \<Rightarrow> (case handler_resume ack of (tr', c) \<Rightarrow> (tr @ tr', c)))"

subsection \<open>Start-up\<close>

text \<open>
  \<^verbatim>\<open>
  const startServer = async () => {
      await client.connect();
      app.listen(3000, () => { console.log('Server is running on port 3000'); });
  };
  startServer();
  \<close>
  \<^verbatim>\<open>app.listen\<close> returns at once; its callback runs later, when the port has been bound.
\<close>

definition startServer_until_await :: "'n event list" where
  "startServer_until_await = [Connect]"

definition startServer_resume :: "unit promise \<Rightarrow> 'n event list \<times> completion" where
  "startServer_resume conn =
     (case conn of
        Fulfilled u \<Rightarrow> ([AwaitReturned, Listen 3000], Returns)
      | Rejected error \<Rightarrow> ([AwaitThrew error], Throws error)
      | Pending \<Rightarrow> ([], Hangs))"

definition startServer :: "unit promise \<Rightarrow> 'n event list \<times> completion" where
  "startServer conn =
     (case startServer_resume conn of (tr, c) \<Rightarrow> (startServer_until_await @ tr, c))"

definition listen_callback :: "'n event list" where
  "listen_callback = [ConsoleLog ''Server is running on port 3000'' []]"

subsection \<open>Reading a trace\<close>

fun sent :: "'n event \<Rightarrow> (nat \<times> string) option" where
  "sent (Send status text) = Some (status, text)"
| "sent _ = None"

fun status_of :: "'n event \<Rightarrow> nat option" where
  "status_of (Send status text) = Some status"
| "status_of (Finalhandler status) = Some status"
| "status_of (ExpressOptions methods) = Some 200"
| "status_of _ = None"

fun published :: "'n event \<Rightarrow> (string \<times> jstring) option" where
  "published (Publish channel message) = Some (channel, message)"
| "published _ = None"

fun listened :: "'n event \<Rightarrow> nat option" where
  "listened (Listen port) = Some port"
| "listened _ = None"

definition sends :: "'n event list \<Rightarrow> (nat \<times> string) list" where
  "sends tr = List.map_filter sent tr"

definition statuses :: "'n event list \<Rightarrow> nat list" where
  "statuses tr = List.map_filter status_of tr"

definition publishes :: "'n event list \<Rightarrow> (string \<times> jstring) list" where
  "publishes tr = List.map_filter published tr"

definition listens :: "'n event list \<Rightarrow> nat list" where
  "listens tr = List.map_filter listened tr"

fun is_parse :: "'n event \<Rightarrow> bool" where
  "is_parse (BodyParser r) = True"
| "is_parse _ = False"

fun is_publish :: "'n event \<Rightarrow> bool" where
  "is_publish (Publish channel message) = True"
| "is_publish _ = False"

fun is_settled :: "'n event \<Rightarrow> bool" where
  "is_settled AwaitReturned = True"
| "is_settled (AwaitThrew error) = True"
| "is_settled _ = False"

fun is_send :: "'n event \<Rightarrow> bool" where
  "is_send (Send status text) = True"
| "is_send _ = False"

fun is_listen :: "'n event \<Rightarrow> bool" where
  "is_listen (Listen port) = True"
| "is_listen _ = False"

fun is_returned :: "'n event \<Rightarrow> bool" where
  "is_returned AwaitReturned = True"
| "is_returned _ = False"

fun is_success :: "'n event \<Rightarrow> bool" where
  "is_success (Send status text) = (status = 200)"
| "is_success _ = False"

text \<open>The event of \<^verbatim>\<open>JSON.stringify\<close> throwing.\<close>

fun is_thrown :: "'n event \<Rightarrow> bool" where
  "is_thrown (StringifyThrew error) = True"
| "is_thrown _ = False"

text \<open>The constants of the interface, as a test on events: the port and the channel.\<close>

fun fixed_interface :: "'n event \<Rightarrow> bool" where
  "fixed_interface (Listen port) = (port = 3000)"
| "fixed_interface (Publish channel message) = (channel = ''trading-signals'')"
| "fixed_interface _ = True"

text \<open>
  \<open>precedes P Q tr\<close>: in \<open>tr\<close>, no event satisfying \<open>Q\<close> comes before the first event
  satisfying \<open>P\<close>; in particular a trace without a \<open>P\<close> event has no \<open>Q\<close> event.
\<close>

fun precedes :: "('a \<Rightarrow> bool) \<Rightarrow> ('a \<Rightarrow> bool) \<Rightarrow> 'a list \<Rightarrow> bool" where
  "precedes P Q [] = True"
| "precedes P Q (x # xs) = (P x \<or> (\<not> Q x \<and> precedes P Q xs))"

subsection \<open>The broker's side of a publish call\<close>

text \<open>
  What becomes of a publish call on the way to the broker and back, which the program
  does not see: the broker carries it out and its reply arrives (the promise is fulfilled
  with the number of receivers); the broker carries it out but the connection fails
  before the reply arrives (the promise is rejected); the command never reaches the
  broker (the promise is rejected); or the command waits in the client's queue (the
  promise stays unsettled). The program sees the promise only.
\<close>

datatype wire = Carried nat | ReplyLost js_error nat | NotSent js_error | Queued

fun promise_of :: "wire \<Rightarrow> nat promise" where
  "promise_of (Carried receivers) = Fulfilled receivers"
| "promise_of (ReplyLost error receivers) = Rejected error"
| "promise_of (NotSent error) = Rejected error"
| "promise_of Queued = Pending"

fun delivered_to :: "wire \<Rightarrow> nat" where
  "delivered_to (Carried receivers) = receivers"
| "delivered_to (ReplyLost error receivers) = receivers"
| "delivered_to (NotSent error) = 0"
| "delivered_to Queued = 0"

subsection \<open>The process as an event loop\<close>

text \<open>
  Requests overlap: while one handler is suspended at its \<^verbatim>\<open>await\<close>, other requests
  arrive and the client may emit \<^verbatim>\<open>'error'\<close>. The process is a state that takes one
  input at a time. Events of the trace are tagged with the request they belong to
  (\<open>None\<close> for the process itself).

  An emitter with no listener for \<^verbatim>\<open>'error'\<close> throws when the event is emitted, which
  ends the process; with listeners, each is called. The file registers one on the client:
  \<^verbatim>\<open>client.on('error', (err) => console.log('Redis Client Error', err))\<close>. It registers
  none on the HTTP server, so a port that cannot be bound ends the process.
  A rejection of the promise of \<^verbatim>\<open>startServer()\<close> is handled nowhere, which also ends the
  process (an unhandled rejection ends a Node.js process with an error, by default since
  version 15).
\<close>

datatype 'n input =
    ConnectFulfilled
  | ConnectRejected js_error
  | ListenSucceeds
  | ListenFails js_error
  | Request nat "'n request"
  | PublishFulfilled nat nat
  | PublishRejected nat js_error
  | ClientError js_error

record 'n server =
  running :: bool
  starting :: bool
  binding :: bool
  awaiting :: "nat list"
  trace :: "(nat option \<times> 'n event) list"

definition emit_error ::
    "(js_error \<Rightarrow> 'n event list) list \<Rightarrow> js_error \<Rightarrow> 'n event list option" where
  "emit_error listeners error =
     (case listeners of
        [] \<Rightarrow> None
      | l # ls \<Rightarrow> Some (concat (map (\<lambda>f. f error) listeners)))"

definition client_error_listeners :: "(js_error \<Rightarrow> 'n event list) list" where
  "client_error_listeners = [\<lambda>err. [ConsoleLog ''Redis Client Error'' [Thrown err]]]"

definition server_error_listeners :: "(js_error \<Rightarrow> 'n event list) list" where
  "server_error_listeners = []"

definition tagged :: "nat option \<Rightarrow> 'n event list \<Rightarrow> (nat option \<times> 'n event) list" where
  "tagged who evs = map (Pair who) evs"

text \<open>The events of one request in a tagged trace, and tests on tagged events.\<close>

definition events_of :: "nat \<Rightarrow> (nat option \<times> 'n event) list \<Rightarrow> 'n event list" where
  "events_of rid tr = map snd (filter (\<lambda>e. fst e = Some rid) tr)"

definition of_request :: "nat option \<times> 'n event \<Rightarrow> bool" where
  "of_request e = (fst e \<noteq> None)"

definition connected :: "nat option \<times> 'n event \<Rightarrow> bool" where
  "connected e = (e = (None, AwaitReturned))"

definition listen_called :: "nat option \<times> 'n event \<Rightarrow> bool" where
  "listen_called e = is_listen (snd e)"

definition bound :: "nat option \<times> 'n event \<Rightarrow> bool" where
  "bound e = (snd e = Listening)"

text \<open>The process once the file has been evaluated: \<^verbatim>\<open>startServer()\<close> has been called
  and is suspended at \<^verbatim>\<open>await client.connect()\<close>.\<close>

definition boot :: "'n server" where
  "boot = \<lparr>running = True, starting = True, binding = False, awaiting = [],
           trace = tagged None startServer_until_await\<rparr>"

text \<open>The listener takes requests once the port has been bound.\<close>

definition accepting :: "'n server \<Rightarrow> bool" where
  "accepting s = list_ex bound (trace s)"

definition connect_settles :: "'n server \<Rightarrow> unit promise \<Rightarrow> 'n server" where
  "connect_settles s conn =
     (if running s \<and> starting s
      then (case startServer_resume conn of
              (evs, Returns) \<Rightarrow>
                s\<lparr>starting := False, binding := list_ex is_listen evs,
                  trace := trace s @ tagged None evs\<rparr>
            | (evs, Throws error) \<Rightarrow>
                s\<lparr>running := False, starting := False,
                  trace := trace s @ tagged None (evs @ [Uncaught error])\<rparr>
            | (evs, Hangs) \<Rightarrow> s)
      else s)"

definition listen_settles :: "'n server \<Rightarrow> js_error option \<Rightarrow> 'n server" where
  "listen_settles s failure =
     (if running s \<and> binding s
      then (case failure of
              None \<Rightarrow>
                s\<lparr>binding := False,
                  trace := trace s @ tagged None (Listening # listen_callback)\<rparr>
            | Some error \<Rightarrow>
                (case emit_error server_error_listeners error of
                   None \<Rightarrow>
                     s\<lparr>running := False, binding := False,
                       trace := trace s @ tagged None [Uncaught error]\<rparr>
                 | Some evs \<Rightarrow> s\<lparr>binding := False, trace := trace s @ tagged None evs\<rparr>))
      else s)"

definition publish_settles :: "'n server \<Rightarrow> nat \<Rightarrow> nat promise \<Rightarrow> 'n server" where
  "publish_settles s rid ack =
     (if running s \<and> rid \<in> set (awaiting s)
      then s\<lparr>awaiting := remove1 rid (awaiting s),
             trace := trace s @ tagged (Some rid) (fst (handler_resume ack))\<rparr>
      else s)"

fun step :: "'n runtime \<Rightarrow> 'n server \<Rightarrow> 'n input \<Rightarrow> 'n server" where
  "step rt s ConnectFulfilled = connect_settles s (Fulfilled ())"
| "step rt s (ConnectRejected error) = connect_settles s (Rejected error)"
| "step rt s ListenSucceeds = listen_settles s None"
| "step rt s (ListenFails error) = listen_settles s (Some error)"
| "step rt s (Request rid req) =
     (if running s \<and> accepting s
      then (case express_pipeline rt req of
              Responded evs \<Rightarrow> s\<lparr>trace := trace s @ tagged (Some rid) evs\<rparr>
            | Awaiting evs \<Rightarrow>
                s\<lparr>awaiting := awaiting s @ [rid], trace := trace s @ tagged (Some rid) evs\<rparr>)
      else s)"
| "step rt s (PublishFulfilled rid receivers) = publish_settles s rid (Fulfilled receivers)"
| "step rt s (PublishRejected rid error) = publish_settles s rid (Rejected error)"
| "step rt s (ClientError error) =
     (if running s
      then (case emit_error client_error_listeners error of
              None \<Rightarrow> s\<lparr>running := False\<rparr>
            | Some evs \<Rightarrow> s\<lparr>trace := trace s @ tagged None evs\<rparr>)
      else s)"

definition run :: "'n runtime \<Rightarrow> 'n server \<Rightarrow> 'n input list \<Rightarrow> 'n server" where
  "run rt s ins = foldl (step rt) s ins"

text \<open>
  Two invariants of the process. \<open>startup_order\<close>: the listener was opened after the
  connection and bound after it was opened, requests were handled after it was bound, and
  a handler can be suspended only once it is bound. \<open>not_serving\<close>: the state of a process
  whose connection has not been made.
\<close>

definition startup_order :: "'n server \<Rightarrow> bool" where
  "startup_order s =
     (precedes connected listen_called (trace s)
      \<and> precedes listen_called bound (trace s)
      \<and> precedes bound of_request (trace s)
      \<and> (awaiting s = [] \<or> accepting s)
      \<and> (binding s \<longrightarrow> list_ex listen_called (trace s)))"

definition not_serving :: "'n server \<Rightarrow> bool" where
  "not_serving s =
     (\<not> accepting s \<and> \<not> list_ex of_request (trace s) \<and> \<not> list_ex listen_called (trace s)
      \<and> awaiting s = [] \<and> \<not> binding s \<and> (running s \<longrightarrow> starting s))"

text \<open>The inputs by which the connection settles.\<close>

fun connect_settled :: "'n input \<Rightarrow> bool" where
  "connect_settled ConnectFulfilled = True"
| "connect_settled (ConnectRejected error) = True"
| "connect_settled _ = False"

text \<open>An event that is neither the call of \<^verbatim>\<open>app.listen\<close> nor the binding of the port.\<close>

fun plain :: "'n event \<Rightarrow> bool" where
  "plain (Listen port) = False"
| "plain Listening = False"
| "plain _ = True"

subsection \<open>Values for the examples\<close>

text \<open>
  A runtime whose numbers are the naturals, printed in decimal, and whose stack lets
  \<^verbatim>\<open>JSON.stringify\<close> descend 4000 levels; the array nested \<open>n\<close> levels deep,
  \<^verbatim>\<open>[[...[]...]]\<close>; and a request \<^verbatim>\<open>POST /signal\<close> that presents a body as JSON.
\<close>

fun dec :: "nat \<Rightarrow> jstring" where
  "dec n = (if n < 10 then [48 + n] else dec (n div 10) @ [48 + n mod 10])"

definition example_runtime :: "nat runtime" where
  "example_runtime = \<lparr>number_text = dec, stack_depth = 4000\<rparr>"

fun nest :: "nat \<Rightarrow> 'n json" where
  "nest 0 = JArray []"
| "nest (Suc n) = JArray [nest n]"

definition post_signal :: "nat \<Rightarrow> 'n parse \<Rightarrow> 'n request" where
  "post_signal len t =
     \<lparr>req_method = ''POST'', req_path = ''/signal'', has_body = True, json_type = True,
      encoding_supported = True, body_length = len, body_text = t\<rparr>"

section \<open>Properties of the embedding\<close>

subsection \<open>The handler and the application, by cases\<close>

lemma JSON_stringify_returns:
  "nesting v \<le> stack_depth rt \<Longrightarrow> JSON_stringify rt v = Inr (serialize (number_text rt) v)"
  by (simp add: JSON_stringify_def)

lemma JSON_stringify_throws:
  "stack_depth rt < nesting v \<Longrightarrow>
   JSON_stringify rt v = Inl ''RangeError: Maximum call stack size exceeded''"
  by (simp add: JSON_stringify_def)

lemma handler_resume_simps:
  "handler_resume (Fulfilled k) =
     ([AwaitReturned, Send 200 ''Signal received and published''], Returns)"
  "handler_resume (Rejected e) =
     ([AwaitThrew e, ConsoleError ''Error publishing signal:'' [Thrown e],
       Send 500 ''Error publishing signal''], Returns)"
  "handler_resume Pending = ([], Hangs)"
  by (simp_all add: handler_resume_def try_after_await_def catch_block_def)

lemma handler_start_publishes:
  "JSON_stringify rt v = Inr m \<Longrightarrow>
   handler_start rt v =
     Awaiting [ConsoleLog ''Received signal:'' [Value v], Publish ''trading-signals'' m]"
  by (simp add: handler_start_def try_until_await_def)

lemma handler_start_throws:
  "JSON_stringify rt v = Inl e \<Longrightarrow>
   handler_start rt v =
     Responded [ConsoleLog ''Received signal:'' [Value v], StringifyThrew e,
       ConsoleError ''Error publishing signal:'' [Thrown e],
       Send 500 ''Error publishing signal'']"
  by (simp add: handler_start_def try_until_await_def catch_block_def)

lemma signal_handler_simps:
  "JSON_stringify rt v = Inr m \<Longrightarrow> signal_handler rt (Fulfilled k) v =
     ([ConsoleLog ''Received signal:'' [Value v], Publish ''trading-signals'' m,
       AwaitReturned, Send 200 ''Signal received and published''], Returns)"
  "JSON_stringify rt v = Inr m \<Longrightarrow> signal_handler rt (Rejected e) v =
     ([ConsoleLog ''Received signal:'' [Value v], Publish ''trading-signals'' m,
       AwaitThrew e, ConsoleError ''Error publishing signal:'' [Thrown e],
       Send 500 ''Error publishing signal''], Returns)"
  "JSON_stringify rt v = Inr m \<Longrightarrow> signal_handler rt Pending v =
     ([ConsoleLog ''Received signal:'' [Value v], Publish ''trading-signals'' m], Hangs)"
  "JSON_stringify rt v = Inl x \<Longrightarrow> signal_handler rt ack v =
     ([ConsoleLog ''Received signal:'' [Value v], StringifyThrew x,
       ConsoleError ''Error publishing signal:'' [Thrown x],
       Send 500 ''Error publishing signal''], Returns)"
  by (simp_all add: signal_handler_def handler_start_publishes handler_start_throws
      handler_resume_simps)

lemma startServer_resume_simps:
  "startServer_resume (Fulfilled u) = ([AwaitReturned, Listen 3000], Returns)"
  "startServer_resume (Rejected e) = ([AwaitThrew e], Throws e)"
  "startServer_resume Pending = ([], Hangs)"
  by (simp_all add: startServer_resume_def)

lemma startServer_simps:
  "startServer (Fulfilled u) = ([Connect, AwaitReturned, Listen 3000], Returns)"
  "startServer (Rejected e) = ([Connect, AwaitThrew e], Throws e)"
  "startServer Pending = ([Connect], Hangs)"
  by (simp_all add: startServer_def startServer_until_await_def startServer_resume_simps)

lemma app_handler:
  assumes "express_json req = Next v"
    and "req_method req = ''POST''" and "req_path req = ''/signal''"
  shows "app rt ack req =
           (BodyParser (Next v) # fst (signal_handler rt ack v), snd (signal_handler rt ack v))"
  using assms
  by (simp add: app_def express_pipeline_def routes_def signal_handler_def
      split: prod.splits pipeline.splits)

lemma app_parse_error:
  assumes "express_json req = NextError status"
  shows "app rt ack req =
           ([BodyParser (NextError status), Finalhandler status, ExpressLogsError status],
            Returns)"
  using assms by (simp add: app_def express_pipeline_def)

lemma app_unrouted:
  assumes "express_json req = Next v"
    and "\<not> (req_method req = ''POST'' \<and> req_path req = ''/signal'')"
  shows "app rt ack req =
           ([BodyParser (Next v),
             if req_method req = ''OPTIONS'' \<and> allowed (req_path req) \<noteq> []
             then ExpressOptions (allowed (req_path req)) else Finalhandler 404], Returns)"
  using assms by (auto simp add: app_def express_pipeline_def routes_def)

lemmas reading = sends_def statuses_def publishes_def listens_def List.map_filter_simps

lemma publishes_signal_handler:
  "publishes (fst (signal_handler rt ack signal)) =
     (case JSON_stringify rt signal of
        Inl x \<Rightarrow> []
      | Inr m \<Rightarrow> [(''trading-signals'', m)])"
proof (cases "JSON_stringify rt signal")
  case (Inl x)
  then show ?thesis by (simp add: signal_handler_simps reading)
next
  case (Inr m)
  then show ?thesis by (cases ack) (simp_all add: signal_handler_simps reading)
qed

lemma nesting_nest: "nesting (nest n :: 'n json) = n"
  by (induction n) simp_all

lemma structured_nest: "is_structured (nest n)"
  by (cases n) simp_all

lemma express_json_accepts:
  assumes "has_body req" and "json_type req" and "encoding_supported req"
    and "0 < body_length req" and "body_length req \<le> body_limit"
    and "body_text req = Json P" and "is_structured P"
  shows "express_json req = Next P"
  using assms by (simp add: express_json_def)

lemma express_json_skips:
  "\<not> has_body req \<or> \<not> json_type req \<Longrightarrow> express_json req = Next (JObject [])"
  by (auto simp add: express_json_def)

lemma stringify_empty_object: "JSON_stringify rt (JObject []) = Inr (units ''{}'')"
  by (simp add: JSON_stringify_def units_def)

subsection \<open>Order in a trace\<close>

lemma precedes_none: "\<forall>x \<in> set xs. \<not> Q x \<Longrightarrow> precedes P Q xs"
  by (induction xs) auto

lemma precedes_append: "precedes P Q xs \<Longrightarrow> precedes P Q ys \<Longrightarrow> precedes P Q (xs @ ys)"
  by (induction xs) auto

lemma precedes_append_after: "precedes P Q xs \<Longrightarrow> list_ex P xs \<Longrightarrow> precedes P Q (xs @ ys)"
  by (induction xs) auto

lemma precedesD:
  "precedes P Q xs \<Longrightarrow> xs = pre @ x # post \<Longrightarrow> Q x \<Longrightarrow> \<not> P x \<Longrightarrow> \<exists>y \<in> set pre. P y"
proof (induction xs arbitrary: pre)
  case Nil
  then show ?case by simp
next
  case (Cons a xs)
  show ?case
  proof (cases pre)
    case Nil
    with Cons.prems show ?thesis by simp
  next
    case (Cons b pre')
    with Cons.prems Cons.IH [of pre'] show ?thesis by auto
  qed
qed

subsection \<open>Runs of the process\<close>

lemma run_Nil: "run rt s [] = s"
  by (simp add: run_def)

lemma run_Cons: "run rt s (i # ins) = run rt (step rt s i) ins"
  by (simp add: run_def)

lemma run_append: "run rt s (xs @ ys) = run rt (run rt s xs) ys"
  by (simp add: run_def)

lemma step_stopped: "\<not> running s \<Longrightarrow> step rt s i = s"
  by (cases i) (simp_all add: connect_settles_def listen_settles_def publish_settles_def)

lemma run_stopped: "\<not> running s \<Longrightarrow> run rt s ins = s"
  by (induction ins) (simp_all add: run_Nil run_Cons step_stopped)

text \<open>What a step appends: the trace only grows.\<close>

lemma step_appends: "\<exists>evs. trace (step rt s i) = trace s @ evs"
  by (cases i)
    (auto simp add: connect_settles_def listen_settles_def publish_settles_def
      emit_error_def client_error_listeners_def server_error_listeners_def
      split: prod.splits completion.splits pipeline.splits option.splits)

subsection \<open>The listener opens after the connection\<close>

lemma handler_start_plain:
  "handler_start rt v = Responded evs \<or> handler_start rt v = Awaiting evs \<Longrightarrow>
   \<forall>e \<in> set evs. plain e"
  by (cases "JSON_stringify rt v") (auto simp add: handler_start_publishes handler_start_throws)

lemma pipeline_plain:
  assumes "express_pipeline rt req = Responded evs \<or> express_pipeline rt req = Awaiting evs"
  shows "\<forall>e \<in> set evs. plain e"
proof (cases "express_json req")
  case (NextError status)
  with assms show ?thesis by (auto simp add: express_pipeline_def)
next
  case (Next v)
  show ?thesis
  proof (cases "(req_method req, req_path req) \<in> set routes")
    case False
    with Next assms show ?thesis by (auto simp add: express_pipeline_def split: if_splits)
  next
    case True
    show ?thesis
    proof (cases "handler_start rt v")
      case (Responded tr)
      with handler_start_plain [of rt v tr] Next True assms show ?thesis
        by (auto simp add: express_pipeline_def)
    next
      case (Awaiting tr)
      with handler_start_plain [of rt v tr] Next True assms show ?thesis
        by (auto simp add: express_pipeline_def)
    qed
  qed
qed

lemma resume_plain: "\<forall>e \<in> set (fst (handler_resume ack)). plain e"
  by (cases ack) (simp_all add: handler_resume_simps)

lemma tagged_plain:
  assumes "\<forall>e \<in> set evs. plain e"
  shows "\<forall>e \<in> set (tagged who evs). \<not> listen_called e \<and> \<not> bound e"
proof -
  have "\<not> is_listen e \<and> e \<noteq> Listening" if "plain e" for e :: "'a event"
    using that by (cases e) simp_all
  with assms show ?thesis
    by (auto simp add: tagged_def listen_called_def bound_def)
qed

lemma tagged_process: "\<forall>e \<in> set (tagged None evs). \<not> of_request e"
  by (simp add: tagged_def of_request_def)

lemma startup_order_append:
  assumes "startup_order s"
    and "\<forall>e \<in> set ys. \<not> listen_called e \<and> \<not> bound e"
    and "accepting s \<or> (\<forall>e \<in> set ys. \<not> of_request e)"
  shows "precedes connected listen_called (trace s @ ys)
     \<and> precedes listen_called bound (trace s @ ys)
     \<and> precedes bound of_request (trace s @ ys)"
proof -
  from assms(2) have "precedes connected listen_called ys" and "precedes listen_called bound ys"
    by (simp_all add: precedes_none)
  with assms(1) have "precedes connected listen_called (trace s @ ys)"
    and "precedes listen_called bound (trace s @ ys)"
    by (simp_all add: startup_order_def precedes_append)
  moreover from assms(1,3) have "precedes bound of_request (trace s @ ys)"
    by (auto simp add: startup_order_def accepting_def precedes_append_after precedes_append
        precedes_none)
  ultimately show ?thesis by simp
qed

lemma startup_order_process:
  assumes "startup_order s" and "\<forall>e \<in> set evs. plain e"
  shows "precedes connected listen_called (trace s @ tagged None evs)
     \<and> precedes listen_called bound (trace s @ tagged None evs)
     \<and> precedes bound of_request (trace s @ tagged None evs)"
proof (rule startup_order_append)
  show "startup_order s" by fact
  show "\<forall>e \<in> set (tagged None evs). \<not> listen_called e \<and> \<not> bound e"
    using assms(2) by (rule tagged_plain)
  show "accepting s \<or> (\<forall>e \<in> set (tagged None evs). \<not> of_request e)"
    using tagged_process by blast
qed

lemma startup_order_served:
  assumes "startup_order s" and "accepting s" and "\<forall>e \<in> set evs. plain e"
  shows "precedes connected listen_called (trace s @ tagged who evs)
     \<and> precedes listen_called bound (trace s @ tagged who evs)
     \<and> precedes bound of_request (trace s @ tagged who evs)"
proof (rule startup_order_append)
  show "startup_order s" by fact
  show "\<forall>e \<in> set (tagged who evs). \<not> listen_called e \<and> \<not> bound e"
    using assms(3) by (rule tagged_plain)
  show "accepting s \<or> (\<forall>e \<in> set (tagged who evs). \<not> of_request e)"
    using assms(2) by simp
qed

lemma startup_order_boot: "startup_order boot"
  by (simp add: startup_order_def boot_def startServer_until_await_def tagged_def connected_def
      listen_called_def bound_def of_request_def)

lemma startup_order_connect:
  assumes "startup_order s"
  shows "startup_order (connect_settles s conn)"
proof (cases "running s \<and> starting s")
  case False
  with assms show ?thesis by (auto simp add: connect_settles_def)
next
  case True
  show ?thesis
  proof (cases conn)
    case (Fulfilled u)
    with assms True show ?thesis
      by (simp add: startup_order_def connect_settles_def startServer_resume_simps
          precedes_append accepting_def tagged_def connected_def listen_called_def bound_def
          of_request_def)
  next
    case (Rejected e)
    from assms have "precedes connected listen_called (trace s @ tagged None [AwaitThrew e, Uncaught e])
       \<and> precedes listen_called bound (trace s @ tagged None [AwaitThrew e, Uncaught e])
       \<and> precedes bound of_request (trace s @ tagged None [AwaitThrew e, Uncaught e])"
      by (rule startup_order_process) simp
    with assms True Rejected show ?thesis
      by (auto simp add: startup_order_def connect_settles_def startServer_resume_simps
          accepting_def)
  next
    case Pending
    with assms True show ?thesis
      by (simp add: connect_settles_def startServer_resume_simps)
  qed
qed

lemma startup_order_listen:
  assumes "startup_order s"
  shows "startup_order (listen_settles s failure)"
proof (cases "running s \<and> binding s")
  case False
  with assms show ?thesis by (auto simp add: listen_settles_def)
next
  case True
  with assms have called: "list_ex listen_called (trace s)"
    by (simp add: startup_order_def)
  show ?thesis
  proof (cases failure)
    case None
    from assms called have "precedes listen_called bound (trace s @ ys)" for ys
      by (simp add: startup_order_def precedes_append_after)
    with assms True None show ?thesis
      by (simp add: startup_order_def listen_settles_def listen_callback_def precedes_append
          accepting_def tagged_def connected_def listen_called_def bound_def of_request_def)
  next
    case (Some e)
    from assms have "precedes connected listen_called (trace s @ tagged None [Uncaught e])
       \<and> precedes listen_called bound (trace s @ tagged None [Uncaught e])
       \<and> precedes bound of_request (trace s @ tagged None [Uncaught e])"
      by (rule startup_order_process) simp
    with assms True Some show ?thesis
      by (auto simp add: startup_order_def listen_settles_def emit_error_def
          server_error_listeners_def accepting_def)
  qed
qed

lemma startup_order_publish:
  assumes "startup_order s"
  shows "startup_order (publish_settles s rid ack)"
proof (cases "running s \<and> rid \<in> set (awaiting s)")
  case False
  with assms show ?thesis by (auto simp add: publish_settles_def)
next
  case True
  with assms have acc: "accepting s"
    by (auto simp add: startup_order_def)
  from assms acc have "precedes connected listen_called (trace s @ tagged (Some rid) (fst (handler_resume ack)))
     \<and> precedes listen_called bound (trace s @ tagged (Some rid) (fst (handler_resume ack)))
     \<and> precedes bound of_request (trace s @ tagged (Some rid) (fst (handler_resume ack)))"
    using resume_plain by (rule startup_order_served)
  with assms True acc show ?thesis
    by (auto simp add: startup_order_def publish_settles_def accepting_def)
qed

lemma startup_order_request:
  assumes "startup_order s"
  shows "startup_order (step rt s (Request rid req))"
proof (cases "running s \<and> accepting s")
  case False
  with assms show ?thesis by auto
next
  case True
  have grow: "precedes connected listen_called (trace s @ tagged (Some rid) evs)
      \<and> precedes listen_called bound (trace s @ tagged (Some rid) evs)
      \<and> precedes bound of_request (trace s @ tagged (Some rid) evs)"
    if "express_pipeline rt req = Responded evs \<or> express_pipeline rt req = Awaiting evs"
    for evs
  proof -
    from that have "\<forall>e \<in> set evs. plain e"
      by (rule pipeline_plain)
    moreover from True have "accepting s" by simp
    ultimately show ?thesis
      using assms by (simp add: startup_order_served)
  qed
  show ?thesis
  proof (cases "express_pipeline rt req")
    case (Responded evs)
    with grow [of evs] assms True show ?thesis
      by (auto simp add: startup_order_def accepting_def)
  next
    case (Awaiting evs)
    with grow [of evs] assms True show ?thesis
      by (auto simp add: startup_order_def accepting_def)
  qed
qed

lemma startup_order_client_error:
  assumes "startup_order s"
  shows "startup_order (step rt s (ClientError e))"
proof (cases "running s")
  case False
  with assms show ?thesis by simp
next
  case True
  from assms have "precedes connected listen_called
        (trace s @ tagged None [ConsoleLog ''Redis Client Error'' [Thrown e]])
     \<and> precedes listen_called bound
        (trace s @ tagged None [ConsoleLog ''Redis Client Error'' [Thrown e]])
     \<and> precedes bound of_request
        (trace s @ tagged None [ConsoleLog ''Redis Client Error'' [Thrown e]])"
    by (rule startup_order_process) simp
  with assms True show ?thesis
    by (auto simp add: startup_order_def emit_error_def client_error_listeners_def accepting_def)
qed

lemma startup_order_step:
  assumes "startup_order s"
  shows "startup_order (step rt s i)"
proof (cases i)
  case (Request rid req)
  with assms show ?thesis by (simp only: startup_order_request)
next
  case (ClientError e)
  with assms show ?thesis by (simp only: startup_order_client_error)
qed (simp_all add: assms startup_order_connect startup_order_listen startup_order_publish)

lemma startup_order_run: "startup_order s \<Longrightarrow> startup_order (run rt s ins)"
  by (induction ins arbitrary: s) (simp_all add: run_Nil run_Cons startup_order_step)

subsection \<open>A process whose connection is not made\<close>

lemma not_serving_boot: "not_serving boot"
  by (simp add: not_serving_def boot_def accepting_def startServer_until_await_def tagged_def
      bound_def listen_called_def of_request_def)

lemma not_serving_step:
  assumes "not_serving s" and "i \<noteq> ConnectFulfilled"
  shows "not_serving (step rt s i)"
proof (cases i)
  case ConnectFulfilled
  with assms(2) show ?thesis by simp
next
  case (ConnectRejected e)
  with assms(1) show ?thesis
    by (auto simp add: not_serving_def connect_settles_def startServer_resume_simps accepting_def
        tagged_def bound_def listen_called_def of_request_def)
next
  case ListenSucceeds
  with assms(1) show ?thesis
    by (simp add: not_serving_def listen_settles_def)
next
  case (ListenFails e)
  with assms(1) show ?thesis
    by (simp add: not_serving_def listen_settles_def)
next
  case (Request rid req)
  with assms(1) show ?thesis
    by (simp add: not_serving_def)
next
  case (PublishFulfilled rid k)
  with assms(1) show ?thesis
    by (simp add: not_serving_def publish_settles_def)
next
  case (PublishRejected rid e)
  with assms(1) show ?thesis
    by (simp add: not_serving_def publish_settles_def)
next
  case (ClientError e)
  with assms(1) show ?thesis
    by (auto simp add: not_serving_def emit_error_def client_error_listeners_def accepting_def
        tagged_def bound_def listen_called_def of_request_def)
qed

lemma not_serving_run:
  "not_serving s \<Longrightarrow> ConnectFulfilled \<notin> set ins \<Longrightarrow> not_serving (run rt s ins)"
proof (induction ins arbitrary: s)
  case Nil
  then show ?case by (simp add: run_Nil)
next
  case (Cons i ins)
  from Cons.prems have "i \<noteq> ConnectFulfilled" and rest: "ConnectFulfilled \<notin> set ins"
    by auto
  with Cons.prems(1) have "not_serving (step rt s i)"
    by (simp add: not_serving_step)
  then have "not_serving (run rt (step rt s i) ins)"
    using rest by (rule Cons.IH)
  then show ?case by (simp add: run_Cons)
qed

lemma not_serving_rejected:
  assumes "not_serving s"
  shows "\<not> running (step rt s (ConnectRejected e))"
  using assms
  by (auto simp add: not_serving_def connect_settles_def startServer_resume_simps)

text \<open>While the connection has not settled the process keeps running.\<close>

lemma connecting_step:
  assumes "running s \<and> starting s \<and> \<not> binding s" and "\<not> connect_settled i"
  shows "running (step rt s i) \<and> starting (step rt s i) \<and> \<not> binding (step rt s i)"
  using assms
  by (cases i)
    (auto simp add: listen_settles_def publish_settles_def emit_error_def
      client_error_listeners_def split: pipeline.splits)

lemma connecting_run:
  "running s \<and> starting s \<and> \<not> binding s \<Longrightarrow> \<not> list_ex connect_settled ins \<Longrightarrow>
   running (run rt s ins) \<and> starting (run rt s ins) \<and> \<not> binding (run rt s ins)"
proof (induction ins arbitrary: s)
  case Nil
  then show ?case by (simp add: run_Nil)
next
  case (Cons i ins)
  from Cons.prems have "\<not> connect_settled i" and rest: "\<not> list_ex connect_settled ins"
    by simp_all
  with Cons.prems(1) have "running (step rt s i) \<and> starting (step rt s i) \<and> \<not> binding (step rt s i)"
    by (simp add: connecting_step)
  then have "running (run rt (step rt s i) ins) \<and> starting (run rt (step rt s i) ins)
      \<and> \<not> binding (run rt (step rt s i) ins)"
    using rest by (rule Cons.IH)
  then show ?case by (simp add: run_Cons)
qed

lemma unsettled_no_fulfilled: "\<not> list_ex connect_settled ins \<Longrightarrow> ConnectFulfilled \<notin> set ins"
  by (induction ins) auto

subsection \<open>The port and the channel\<close>

lemma handler_start_fixed:
  "handler_start rt v = Responded evs \<or> handler_start rt v = Awaiting evs \<Longrightarrow>
   \<forall>e \<in> set evs. fixed_interface e"
  by (cases "JSON_stringify rt v") (auto simp add: handler_start_publishes handler_start_throws)

lemma pipeline_fixed:
  assumes "express_pipeline rt req = Responded evs \<or> express_pipeline rt req = Awaiting evs"
  shows "\<forall>e \<in> set evs. fixed_interface e"
proof (cases "express_json req")
  case (NextError status)
  with assms show ?thesis by (auto simp add: express_pipeline_def)
next
  case (Next v)
  show ?thesis
  proof (cases "(req_method req, req_path req) \<in> set routes")
    case False
    with Next assms show ?thesis by (auto simp add: express_pipeline_def split: if_splits)
  next
    case True
    show ?thesis
    proof (cases "handler_start rt v")
      case (Responded tr)
      with handler_start_fixed [of rt v tr] Next True assms show ?thesis
        by (auto simp add: express_pipeline_def)
    next
      case (Awaiting tr)
      with handler_start_fixed [of rt v tr] Next True assms show ?thesis
        by (auto simp add: express_pipeline_def)
    qed
  qed
qed

lemma resume_fixed: "\<forall>e \<in> set (fst (handler_resume ack)). fixed_interface e"
  by (cases ack) (simp_all add: handler_resume_simps)

lemma start_fixed: "\<forall>e \<in> set (fst (startServer_resume conn)). fixed_interface e"
  by (cases conn) (simp_all add: startServer_resume_simps)

lemma fixed_step:
  assumes "\<forall>e \<in> set (trace s). fixed_interface (snd e)"
  shows "\<forall>e \<in> set (trace (step rt s i)). fixed_interface (snd e)"
proof (cases i)
  case ConnectFulfilled
  with assms start_fixed [of "Fulfilled ()"] show ?thesis
    by (auto simp add: connect_settles_def tagged_def split: prod.splits completion.splits)
next
  case (ConnectRejected e)
  with assms start_fixed [of "Rejected e"] show ?thesis
    by (auto simp add: connect_settles_def tagged_def split: prod.splits completion.splits)
next
  case ListenSucceeds
  with assms show ?thesis
    by (auto simp add: listen_settles_def listen_callback_def tagged_def)
next
  case (ListenFails e)
  with assms show ?thesis
    by (auto simp add: listen_settles_def emit_error_def server_error_listeners_def tagged_def)
next
  case (Request rid req)
  with assms pipeline_fixed [of rt req] show ?thesis
    by (auto simp add: tagged_def split: pipeline.splits)
next
  case (PublishFulfilled rid k)
  with assms resume_fixed [of "Fulfilled k"] show ?thesis
    by (auto simp add: publish_settles_def tagged_def)
next
  case (PublishRejected rid e)
  with assms resume_fixed [of "Rejected e"] show ?thesis
    by (auto simp add: publish_settles_def tagged_def)
next
  case (ClientError e)
  with assms show ?thesis
    by (auto simp add: emit_error_def client_error_listeners_def tagged_def)
qed

lemma fixed_run:
  "\<forall>e \<in> set (trace s). fixed_interface (snd e) \<Longrightarrow>
   \<forall>e \<in> set (trace (run rt s ins)). fixed_interface (snd e)"
proof (induction ins arbitrary: s)
  case Nil
  then show ?case by (simp add: run_Nil)
next
  case (Cons i ins)
  from Cons.prems have "\<forall>e \<in> set (trace (step rt s i)). fixed_interface (snd e)"
    by (rule fixed_step)
  then have "\<forall>e \<in> set (trace (run rt (step rt s i) ins)). fixed_interface (snd e)"
    by (rule Cons.IH)
  then show ?case
    by (simp add: run_Cons)
qed

subsection \<open>The serialization loses nothing\<close>

text \<open>
  A quoted string can be read back, so two quoted strings followed by any texts are equal
  only if the strings and the texts are. The same holds for the serializations of two
  values, when what follows each is empty or starts with a character that no number
  contains.
\<close>

lemma unhex_hex: "x < 16 \<Longrightarrow> unhex (hex_digit x) = x"
  by (simp add: unhex_def hex_digit_def)

lemma hex_value:
  assumes "(c::nat) < 65536"
  shows "4096 * (c div 4096 mod 16) + 256 * (c div 256 mod 16) + 16 * (c div 16 mod 16) + c mod 16 = c"
  using assms mod_mult2_eq [of c 16 16] mod_mult2_eq [of c 256 16] mod_mult2_eq [of c 4096 16]
  by simp

lemma unquote_hex:
  assumes "a < 16" "b < 16" "e < 16" "d < 16"
  shows "unquote (92 # 117 # hex_digit a # hex_digit b # hex_digit e # hex_digit d # rest) =
    map_option (\<lambda>(s, r). ((4096 * a + 256 * b + 16 * e + d) # s, r)) (unquote rest)"
  using assms by (simp add: unhex_hex)

lemma unquote_escape:
  assumes "c < 65536"
  shows "unquote (UnicodeEscape c @ rest) = map_option (\<lambda>(s, r). (c # s, r)) (unquote rest)"
proof -
  have "unquote (UnicodeEscape c @ rest) =
    map_option (\<lambda>(s, r). ((4096 * (c div 4096 mod 16) + 256 * (c div 256 mod 16) +
      16 * (c div 16 mod 16) + c mod 16) # s, r)) (unquote rest)"
    unfolding UnicodeEscape_def units_def
    using unquote_hex [of "c div 4096 mod 16" "c div 256 mod 16" "c div 16 mod 16" "c mod 16" rest]
    by simp
  then show ?thesis
    unfolding hex_value [OF assms] .
qed

lemma unquote_unit:
  "unquote (quote_unit c @ rest) = map_option (\<lambda>(s, r). (c # s, r)) (unquote rest)"
proof (cases "c < 32 \<or> is_high c \<or> is_low c")
  case True
  then have "c < 65536"
    by (auto simp add: is_high_def is_low_def)
  then have "unquote (UnicodeEscape c @ rest) = map_option (\<lambda>(s, r). (c # s, r)) (unquote rest)"
    by (rule unquote_escape)
  then show ?thesis
    by (auto simp add: quote_unit_def units_def unescape_def)
next
  case False
  then show ?thesis
    by (auto simp add: quote_unit_def units_def unescape_def)
qed

lemma unquote_units: "unquote (quote_units xs @ 34 # r) = Some (xs, r)"
proof (induction xs rule: quote_units.induct)
  case 1
  show ?case by simp
next
  case (2 c)
  show ?case by (simp add: unquote_unit)
next
  case (3 c d cs)
  show ?case
  proof (cases "is_high c \<and> is_low d")
    case True
    then have "c \<noteq> 34" and "c \<noteq> 92"
      by (auto simp add: is_high_def)
    with True 3 show ?thesis by simp
  next
    case False
    with 3 show ?thesis by (auto simp add: unquote_unit)
  qed
qed

lemma quoted_unique:
  assumes "QuoteJSONString s @ r = QuoteJSONString t @ r'"
  shows "s = t \<and> r = r'"
proof -
  from assms have "quote_units s @ 34 # r = quote_units t @ 34 # r'"
    by (simp add: QuoteJSONString_def)
  then have "unquote (quote_units s @ 34 # r) = unquote (quote_units t @ 34 # r')"
    by simp
  then show ?thesis
    by (simp add: unquote_units)
qed

lemma join_with_Cons:
  "join_with sep (x # xs) @ r = x @ (if xs = [] then r else sep @ join_with sep xs @ r)"
  by (cases xs) simp_all

lemma number_text_unique:
  assumes "list_all number_unit s" and "list_all number_unit t"
    and "r = [] \<or> \<not> number_unit (hd r)" and "r' = [] \<or> \<not> number_unit (hd r')"
    and "s @ r = t @ r'"
  shows "s = t \<and> r = r'"
proof -
  have a: "takeWhile number_unit (s @ r) = s"
    using assms(1,3) by (cases r) (simp_all add: list_all_iff takeWhile_append2)
  have b: "takeWhile number_unit (t @ r') = t"
    using assms(2,4) by (cases r') (simp_all add: list_all_iff takeWhile_append2)
  from a b assms(5) have "s = t" by simp
  with assms(5) show ?thesis by simp
qed

lemma join_unique:
  assumes item: "\<And>x s y s'. x \<in> set xs \<Longrightarrow> y \<in> set ys \<Longrightarrow>
      hd s = 44 \<or> hd s = e \<Longrightarrow> s \<noteq> [] \<Longrightarrow> hd s' = 44 \<or> hd s' = e \<Longrightarrow> s' \<noteq> [] \<Longrightarrow>
      f x @ s = f y @ s' \<Longrightarrow> g x = g y \<and> s = s'"
    and start: "\<And>x. x \<in> set xs \<union> set ys \<Longrightarrow> f x \<noteq> [] \<and> hd (f x) \<noteq> e"
    and e: "e \<noteq> 44"
    and eq: "join_with [44] (map f xs) @ e # r = join_with [44] (map f ys) @ e # r'"
  shows "map g xs = map g ys \<and> r = r'"
  using item start eq
proof (induction xs arbitrary: ys)
  case Nil
  show ?case
  proof (cases ys)
    case Nil
    with Nil.prems(3) show ?thesis by simp
  next
    case (Cons y ys')
    with Nil.prems(2) [of y] obtain c cs where "f y = c # cs" and "c \<noteq> e"
      by (cases "f y") auto
    with Nil.prems(3) Cons show ?thesis
      by (simp add: join_with_Cons del: join_with.simps(2,3))
  qed
next
  case (Cons x xs')
  show ?case
  proof (cases ys)
    case Nil
    from Cons.prems(2) [of x] obtain c cs where "f x = c # cs" and "c \<noteq> e"
      by (cases "f x") auto
    with Cons.prems(3) Nil show ?thesis
      by (simp add: join_with_Cons del: join_with.simps(2,3))
  next
    case ys: (Cons y ys')
    let ?s = "if xs' = [] then e # r else [44] @ join_with [44] (map f xs') @ e # r"
    let ?s' = "if ys' = [] then e # r' else [44] @ join_with [44] (map f ys') @ e # r'"
    from Cons.prems(3) ys have "f x @ ?s = f y @ ?s'"
      by (simp add: join_with_Cons del: join_with.simps(2,3))
    moreover have "hd ?s = 44 \<or> hd ?s = e" "?s \<noteq> []" "hd ?s' = 44 \<or> hd ?s' = e" "?s' \<noteq> []"
      by simp_all
    ultimately have head: "g x = g y \<and> ?s = ?s'"
      using ys by (intro Cons.prems(1)) simp_all
    show ?thesis
    proof (cases "xs' = []")
      case True
      with head e ys show ?thesis
        by (cases "ys' = []") simp_all
    next
      case False
      with head e have ne: "ys' \<noteq> []"
        by (cases "ys' = []") simp_all
      with False head have "join_with [44] (map f xs') @ e # r = join_with [44] (map f ys') @ e # r'"
        by simp
      moreover have "\<And>x s y s'. x \<in> set xs' \<Longrightarrow> y \<in> set ys' \<Longrightarrow>
          hd s = 44 \<or> hd s = e \<Longrightarrow> s \<noteq> [] \<Longrightarrow> hd s' = 44 \<or> hd s' = e \<Longrightarrow> s' \<noteq> [] \<Longrightarrow>
          f x @ s = f y @ s' \<Longrightarrow> g x = g y \<and> s = s'"
        using ys by (intro Cons.prems(1)) simp_all
      moreover have "\<And>x. x \<in> set xs' \<union> set ys' \<Longrightarrow> f x \<noteq> [] \<and> hd (f x) \<noteq> e"
        using ys by (intro Cons.prems(2)) auto
      ultimately have "map g xs' = map g ys' \<and> r = r'"
        by (intro Cons.IH) 
      with head ys show ?thesis by simp
    qed
  qed
qed

lemma number_head:
  assumes "numeric_text t" and "c # s = t @ r"
  shows "number_unit c"
  using assms by (cases t) (auto simp add: numeric_text_def)

lemma number_head_left:
  assumes "numeric_text t" and "t @ r = c # s"
  shows "number_unit c"
  using assms by (cases t) (auto simp add: numeric_text_def)

lemma not_number_unit [simp]:
  "\<not> number_unit 110" "\<not> number_unit 116" "\<not> number_unit 102" "\<not> number_unit 34"
  "\<not> number_unit 91" "\<not> number_unit 123" "\<not> number_unit 44" "\<not> number_unit 93"
  "\<not> number_unit 125"
  by (simp_all add: number_unit_def units_def)

lemma serialize_start:
  assumes "numeric num v"
  shows "serialize num v \<noteq> [] \<and> hd (serialize num v) \<noteq> 44 \<and> hd (serialize num v) \<noteq> 93
    \<and> hd (serialize num v) \<noteq> 125"
proof (cases v)
  case (JNumber n)
  with assms obtain c cs where "num n = c # cs" and "number_unit c"
    by (cases "num n") (auto simp add: numeric_text_def)
  with JNumber show ?thesis by auto
qed (simp_all add: units_def QuoteJSONString_def)

lemma serialize_unique:
  assumes "numeric num v" and "numeric num w"
    and "r = [] \<or> \<not> number_unit (hd r)" and "r' = [] \<or> \<not> number_unit (hd r')"
    and "serialize num v @ r = serialize num w @ r'"
  shows "map_json num v = map_json num w \<and> r = r'"
  using assms
proof (induction v arbitrary: w r r')
  case JNull
  then show ?case
    by (cases w) (auto simp add: units_def QuoteJSONString_def dest: number_head split: if_splits)
next
  case (JBool b)
  then show ?case
    by (cases w) (auto simp add: units_def QuoteJSONString_def dest: number_head split: if_splits)
next
  case (JNumber n)
  show ?case
  proof (cases w)
    case (JNumber m)
    with JNumber.prems number_text_unique [of "num n" "num m" r r'] show ?thesis
      by (simp add: numeric_text_def)
  qed (use JNumber.prems in \<open>auto simp add: units_def QuoteJSONString_def dest: number_head_left split: if_splits\<close>)
next
  case (JString s)
  show ?case
  proof (cases w)
    case (JString t)
    with JString.prems quoted_unique [of s r t r'] show ?thesis
      by simp
  qed (use JString.prems in \<open>auto simp add: units_def QuoteJSONString_def dest: number_head split: if_splits\<close>)
next
  case (JArray vs)
  show ?case
  proof (cases w)
    case w: (JArray ws)
    from JArray.prems(5) w have eq: "join_with [44] (map (serialize num) vs) @ 93 # r =
        join_with [44] (map (serialize num) ws) @ 93 # r'"
      by (simp add: units_def)
    have "map (map_json num) vs = map (map_json num) ws \<and> r = r'"
    proof (rule join_unique [where f = "serialize num" and e = 93, OF _ _ _ eq])
      fix x s y s'
      assume "x \<in> set vs" "y \<in> set ws" "hd s = 44 \<or> hd s = 93" "s \<noteq> []"
        "hd s' = 44 \<or> hd s' = 93" "s' \<noteq> []" "serialize num x @ s = serialize num y @ s'"
      moreover from this have "\<not> number_unit (hd s)" "\<not> number_unit (hd s')"
        by auto
      ultimately show "map_json num x = map_json num y \<and> s = s'"
        using JArray.prems(1,2) w by (intro JArray.IH) (simp_all add: list_all_iff)
    next
      fix x
      assume "x \<in> set vs \<union> set ws"
      with JArray.prems(1,2) w have "numeric num x"
        by (auto simp add: list_all_iff)
      then show "serialize num x \<noteq> [] \<and> hd (serialize num x) \<noteq> 93"
        using serialize_start [of num x] by simp
    qed simp
    with w show ?thesis by simp
  qed (use JArray.prems in \<open>auto simp add: units_def QuoteJSONString_def dest: number_head split: if_splits\<close>)
next
  case (JObject ps)
  show ?case
  proof (cases w)
    case w: (JObject qs)
    let ?f = "\<lambda>(k, v). QuoteJSONString k @ [58] @ serialize num v"
    from JObject.prems(5) w have eq: "join_with [44] (map ?f ps) @ 125 # r =
        join_with [44] (map ?f qs) @ 125 # r'"
      by (simp add: units_def)
    have "map (map_prod id (map_json num)) ps = map (map_prod id (map_json num)) qs \<and> r = r'"
    proof (rule join_unique [where f = ?f and e = 125, OF _ _ _ eq])
      fix x s y s'
      assume a: "x \<in> set ps" "y \<in> set qs" "hd s = 44 \<or> hd s = 125" "s \<noteq> []"
        "hd s' = 44 \<or> hd s' = 125" "s' \<noteq> []" "?f x @ s = ?f y @ s'"
      obtain k v where x: "x = (k, v)" by (cases x)
      obtain l u where y: "y = (l, u)" by (cases y)
      from a(7) x y have "QuoteJSONString k @ (58 # serialize num v @ s) =
          QuoteJSONString l @ (58 # serialize num u @ s')"
        by simp
      then have k: "k = l" and rest: "serialize num v @ s = serialize num u @ s'"
        using quoted_unique [of k "58 # serialize num v @ s" l "58 # serialize num u @ s'"]
        by simp_all
      from a have "\<not> number_unit (hd s)" "\<not> number_unit (hd s')"
        by auto
      moreover from JObject.prems(1,2) w a(1,2) x y have "numeric num v" "numeric num u"
        by (auto simp add: list_all_iff)
      moreover from a(1) x have "x \<in> set ps" "v \<in> Basic_BNFs.snds x"
        by simp_all
      ultimately have "map_json num v = map_json num u \<and> s = s'"
        using rest by (intro JObject.IH) simp_all
      with k x y show "map_prod id (map_json num) x = map_prod id (map_json num) y \<and> s = s'"
        by simp
    next
      fix x :: "jstring \<times> 'a json"
      show "?f x \<noteq> [] \<and> hd (?f x) \<noteq> 125"
        by (cases x) (simp add: QuoteJSONString_def)
    qed simp
    with w show ?thesis by simp
  qed (use JObject.prems in \<open>auto simp add: units_def QuoteJSONString_def dest: number_head split: if_splits\<close>)
qed

section \<open>The claims\<close>

text \<open>
  In the statements below a request is a record of what the body parser looks at: whether
  it has a body, whether its \<^verbatim>\<open>Content-Type\<close> is JSON, whether its charset and content
  encoding are supported, how long the body is, and what the body's text is when read as
  JSON. The publish call succeeds when its promise is fulfilled, fails when it is
  rejected, and is unsettled while its promise is pending.
\<close>

subsection \<open>C1\<close>

text \<open>
  Claim C1 says that every valid JSON payload sent to \<^verbatim>\<open>POST /signal\<close> is answered with
  status 200 and published, when the publish call succeeds. Four valid JSON texts for
  which it does not hold, each sent as \<^verbatim>\<open>application/json\<close> with the publish call
  succeeding: \<^verbatim>\<open>null\<close> (the parser is strict and takes objects and arrays only: 400), an
  array in a body of 102401 bytes (over the parser's limit of 100 kB: 413), an array in a
  charset the parser does not support (415), and an array nested 4200 deep, which the
  parser accepts and \<^verbatim>\<open>JSON.stringify\<close> cannot serialize on a stack that lets it descend
  4000 levels: the handler's \<^verbatim>\<open>catch\<close> answers 500 and nothing is published.
\<close>

theorem valid_payload_refused:
  "statuses (fst (app example_runtime (Fulfilled 1) (post_signal 4 (Json JNull)))) = [400]
   \<and> statuses (fst (app example_runtime (Fulfilled 1)
        (post_signal 102401 (Json (JArray []))))) = [413]
   \<and> statuses (fst (app example_runtime (Fulfilled 1)
        ((post_signal 2 (Json (JArray [])))\<lparr>encoding_supported := False\<rparr>))) = [415]
   \<and> statuses (fst (app example_runtime (Fulfilled 1)
        (post_signal 8402 (Json (nest 4200))))) = [500]
   \<and> publishes (fst (app example_runtime (Fulfilled 1)
        (post_signal 8402 (Json (nest 4200))))) = []"
proof -
  have refused: "statuses (fst (app rt ack req)) = [status]"
    if "express_json req = NextError status" for rt ack status and req :: "nat request"
    using that by (simp add: app_parse_error reading)
  have "express_json (post_signal 8402 (Json (nest 4200 :: nat json))) = Next (nest 4200)"
    by (rule express_json_accepts)
      (simp_all add: post_signal_def body_limit_def structured_nest)
  moreover have "JSON_stringify example_runtime (nest 4200) =
      Inl ''RangeError: Maximum call stack size exceeded''"
    by (rule JSON_stringify_throws) (simp add: example_runtime_def nesting_nest)
  ultimately have "fst (app example_runtime (Fulfilled 1) (post_signal 8402 (Json (nest 4200)))) =
      BodyParser (Next (nest 4200)) #
      fst (signal_handler example_runtime (Fulfilled 1) (nest 4200))"
    and "fst (signal_handler example_runtime (Fulfilled 1) (nest 4200)) =
      [ConsoleLog ''Received signal:'' [Value (nest 4200)],
       StringifyThrew ''RangeError: Maximum call stack size exceeded'',
       ConsoleError ''Error publishing signal:''
         [Thrown ''RangeError: Maximum call stack size exceeded''],
       Send 500 ''Error publishing signal'']"
    by (simp_all add: app_handler post_signal_def signal_handler_simps)
  then have "statuses (fst (app example_runtime (Fulfilled 1)
        (post_signal 8402 (Json (nest 4200))))) = [500]"
    and "publishes (fst (app example_runtime (Fulfilled 1)
        (post_signal 8402 (Json (nest 4200))))) = []"
    by (simp_all add: reading)
  moreover have "statuses (fst (app example_runtime (Fulfilled 1) (post_signal 4 (Json JNull)))) = [400]"
    by (rule refused) (simp add: express_json_def post_signal_def body_limit_def)
  moreover have "statuses (fst (app example_runtime (Fulfilled 1)
        (post_signal 102401 (Json (JArray []))))) = [413]"
    by (rule refused) (simp add: express_json_def post_signal_def body_limit_def)
  moreover have "statuses (fst (app example_runtime (Fulfilled 1)
        ((post_signal 2 (Json (JArray [])))\<lparr>encoding_supported := False\<rparr>))) = [415]"
    by (rule refused) (simp add: express_json_def post_signal_def body_limit_def)
  ultimately show ?thesis
    by simp
qed

text \<open>
  Claim C1, amended. Take a request \<^verbatim>\<open>POST /signal\<close> that presents a non-empty body as
  JSON, whose text is the JSON value \<open>P\<close>, and whose publish call, if made, succeeds.
  If the charset and encoding are supported, the body is at most 100 kB long, \<open>P\<close> is an
  object or an array, and \<open>P\<close> is nested no deeper than \<^verbatim>\<open>JSON.stringify\<close> can descend,
  then the request gets one response, status 200 with the text
  \<^verbatim>\<open>Signal received and published\<close>, and makes exactly one publish call: on the channel
  \<^verbatim>\<open>trading-signals\<close>, with the message \<^verbatim>\<open>JSON.stringify(P)\<close>. Otherwise nothing is
  published and the status is 415 (charset or encoding), 413 (length), 400 (not an object
  or array) or 500 (nesting), in this order of precedence.
\<close>

theorem post_signal_publishes_once:
  assumes "req_method req = ''POST''" and "req_path req = ''/signal''"
    and "has_body req" and "json_type req" and "0 < body_length req"
    and "body_text req = Json P"
  shows "(encoding_supported req \<and> body_length req \<le> body_limit \<and> is_structured P
          \<and> nesting P \<le> stack_depth rt \<longrightarrow>
        sends (fst (app rt (Fulfilled k) req)) = [(200, ''Signal received and published'')]
        \<and> statuses (fst (app rt (Fulfilled k) req)) = [200]
        \<and> publishes (fst (app rt (Fulfilled k) req))
            = [(''trading-signals'', serialize (number_text rt) P)]
        \<and> JSON_stringify rt P = Inr (serialize (number_text rt) P))
     \<and> statuses (fst (app rt (Fulfilled k) req)) =
         [if \<not> encoding_supported req then 415
          else if body_limit < body_length req then 413
          else if \<not> is_structured P then 400
          else if stack_depth rt < nesting P then 500
          else 200]
     \<and> (\<not> (encoding_supported req \<and> body_length req \<le> body_limit \<and> is_structured P
             \<and> nesting P \<le> stack_depth rt) \<longrightarrow>
        publishes (fst (app rt (Fulfilled k) req)) = [])"
proof (cases "encoding_supported req \<and> body_length req \<le> body_limit \<and> is_structured P")
  case False
  with assms have "express_json req =
      NextError (if \<not> encoding_supported req then 415
                 else if body_limit < body_length req then 413 else 400)"
    by (auto simp add: express_json_def)
  then have "app rt (Fulfilled k) req =
      ([BodyParser (NextError (if \<not> encoding_supported req then 415
                 else if body_limit < body_length req then 413 else 400)),
        Finalhandler (if \<not> encoding_supported req then 415
                 else if body_limit < body_length req then 413 else 400),
        ExpressLogsError (if \<not> encoding_supported req then 415
                 else if body_limit < body_length req then 413 else 400)], Returns)"
    by (rule app_parse_error)
  with False show ?thesis
    by (auto simp add: reading)
next
  case True
  with assms have "express_json req = Next P"
    by (simp add: express_json_accepts)
  then have handled: "app rt (Fulfilled k) req =
      (BodyParser (Next P) # fst (signal_handler rt (Fulfilled k) P),
       snd (signal_handler rt (Fulfilled k) P))"
    using assms(1,2) by (rule app_handler)
  show ?thesis
  proof (cases "nesting P \<le> stack_depth rt")
    case shallow: True
    then have "JSON_stringify rt P = Inr (serialize (number_text rt) P)"
      by (rule JSON_stringify_returns)
    with True shallow handled show ?thesis
      by (simp add: signal_handler_simps reading)
  next
    case deep: False
    then have "JSON_stringify rt P = Inl ''RangeError: Maximum call stack size exceeded''"
      by (simp add: JSON_stringify_throws)
    with True deep handled show ?thesis
      by (simp add: signal_handler_simps reading)
  qed
qed

text \<open>The scenario of the specification: the payload \<^verbatim>\<open>{"symbol":"AAPL","action":"buy"}\<close>.\<close>

theorem post_signal_publishes_once_witness: \<open>
  nesting (JObject [(units ''symbol'', JString (units ''AAPL'')),
      (units ''action'', JString (units ''buy''))] :: nat json) \<le> stack_depth example_runtime
  \<and> sends (fst (app example_runtime (Fulfilled 1)
      (post_signal 32 (Json (JObject [(units ''symbol'', JString (units ''AAPL'')),
         (units ''action'', JString (units ''buy''))])))))
     = [(200, ''Signal received and published'')]
  \<and> publishes (fst (app example_runtime (Fulfilled 1)
      (post_signal 32 (Json (JObject [(units ''symbol'', JString (units ''AAPL'')),
         (units ''action'', JString (units ''buy''))])))))
     = [(''trading-signals'', units ''{"symbol":"AAPL","action":"buy"}'')]\<close>
  using post_signal_publishes_once [where rt = example_runtime and k = 1
      and req = "post_signal 32 (Json (JObject [(units ''symbol'', JString (units ''AAPL'')),
         (units ''action'', JString (units ''buy''))]))"
      and P = "JObject [(units ''symbol'', JString (units ''AAPL'')),
         (units ''action'', JString (units ''buy''))]"]
  by (simp add: post_signal_def body_limit_def example_runtime_def units_def
      QuoteJSONString_def quote_unit_def is_high_def is_low_def)

subsection \<open>C2\<close>

text \<open>
  Claim C2 says that a malformed body sent to \<^verbatim>\<open>POST /signal\<close> is answered with status
  500. The body parser runs before the route and outside the handler's \<^verbatim>\<open>try\<close>; its
  error goes to Express, which answers with the error's own status. A one-byte body that
  is not JSON, sent as \<^verbatim>\<open>application/json\<close>, is answered with status 400.
\<close>

theorem malformed_body_status_400:
  "statuses (fst (app example_runtime (Fulfilled 1) (post_signal 1 Malformed))) = [400]
   \<and> statuses (fst (app example_runtime (Fulfilled 1) (post_signal 1 Malformed))) \<noteq> [500]"
  by (simp add: app_def express_pipeline_def express_json_def post_signal_def body_limit_def
      reading)

text \<open>
  Claim C2, amended. For every request whose body is malformed (not parseable as JSON),
  the body parser decides, before the route is looked at. If the body is presented as
  JSON, in a supported charset and encoding, non-empty and at most 100 kB long, the parser
  refuses it with status 400: Express sends the response and writes the error to the
  console, the handler does not run, and nothing is published. If the charset or encoding
  is not supported the status is 415, and if the body is longer than 100 kB it is 413,
  again with no publish call. In every other case (no body, a body not presented as JSON,
  an empty body) the parser does not read the text and passes the empty object on: a
  request \<^verbatim>\<open>POST /signal\<close> then publishes \<^verbatim>\<open>{}\<close> and is answered with status 200 when the
  publish call succeeds. No malformed body is answered with the handler's 500 unless the
  publish call fails.
\<close>

theorem malformed_body_rejected_by_parser:
  assumes "body_text req = Malformed"
  shows "express_json req =
           (if \<not> has_body req \<or> \<not> json_type req then Next (JObject [])
            else if \<not> encoding_supported req then NextError 415
            else if body_limit < body_length req then NextError 413
            else if body_length req = 0 then Next (JObject [])
            else NextError 400)
     \<and> (has_body req \<and> json_type req \<and> encoding_supported req
          \<and> 0 < body_length req \<and> body_length req \<le> body_limit \<longrightarrow>
          app rt ack req =
            ([BodyParser (NextError 400), Finalhandler 400, ExpressLogsError 400], Returns))
     \<and> (express_json req = NextError status \<longrightarrow>
          statuses (fst (app rt ack req)) = [status]
          \<and> sends (fst (app rt ack req)) = []
          \<and> publishes (fst (app rt ack req)) = []
          \<and> ExpressLogsError status \<in> set (fst (app rt ack req)))
     \<and> (req_method req = ''POST'' \<and> req_path req = ''/signal''
          \<and> express_json req = Next b \<longrightarrow>
          b = JObject []
          \<and> publishes (fst (app rt ack req)) = [(''trading-signals'', units ''{}'')]
          \<and> statuses (fst (app rt (Fulfilled k) req)) = [200]
          \<and> (statuses (fst (app rt ack req)) = [500] \<longrightarrow> (\<exists>e. ack = Rejected e)))"
proof (intro conjI impI)
  from assms show parser: "express_json req =
      (if \<not> has_body req \<or> \<not> json_type req then Next (JObject [])
       else if \<not> encoding_supported req then NextError 415
       else if body_limit < body_length req then NextError 413
       else if body_length req = 0 then Next (JObject [])
       else NextError 400)"
    by (simp add: express_json_def)
  {
    assume "has_body req \<and> json_type req \<and> encoding_supported req
        \<and> 0 < body_length req \<and> body_length req \<le> body_limit"
    with parser have "express_json req = NextError 400"
      by simp
    then show "app rt ack req =
        ([BodyParser (NextError 400), Finalhandler 400, ExpressLogsError 400], Returns)"
      by (rule app_parse_error)
  }
  {
    assume "express_json req = NextError status"
    then have "app rt ack req =
        ([BodyParser (NextError status), Finalhandler status, ExpressLogsError status], Returns)"
      by (rule app_parse_error)
    then show "statuses (fst (app rt ack req)) = [status]"
      and "sends (fst (app rt ack req)) = []"
      and "publishes (fst (app rt ack req)) = []"
      and "ExpressLogsError status \<in> set (fst (app rt ack req))"
      by (simp_all add: reading)
  }
  {
    assume routed: "req_method req = ''POST'' \<and> req_path req = ''/signal''
        \<and> express_json req = Next b"
    with parser show empty: "b = JObject []"
      by (auto split: if_splits)
    with routed have handled: "app rt a req =
        (BodyParser (Next (JObject [])) # fst (signal_handler rt a (JObject [])),
         snd (signal_handler rt a (JObject [])))" for a
      by (simp add: app_handler)
    then have "publishes (fst (app rt ack req)) =
        publishes (fst (signal_handler rt ack (JObject [])))"
      by (simp add: reading)
    then show "publishes (fst (app rt ack req)) = [(''trading-signals'', units ''{}'')]"
      by (simp add: publishes_signal_handler stringify_empty_object)
    show "statuses (fst (app rt (Fulfilled k) req)) = [200]"
      by (simp add: handled signal_handler_simps stringify_empty_object reading)
    {
      assume "statuses (fst (app rt ack req)) = [500]"
      then show "\<exists>e. ack = Rejected e"
        by (cases ack) (simp_all add: handled signal_handler_simps stringify_empty_object reading)
    }
  }
qed

text \<open>
  A one-byte malformed body sent as \<^verbatim>\<open>application/json\<close>, and the same body sent with
  another content type.
\<close>

theorem malformed_body_rejected_by_parser_witness:
  "body_text (post_signal 1 Malformed :: nat request) = Malformed
   \<and> app example_runtime (Fulfilled 1) (post_signal 1 Malformed) =
       ([BodyParser (NextError 400), Finalhandler 400, ExpressLogsError 400], Returns)
   \<and> publishes (fst (app example_runtime (Fulfilled 1) (post_signal 1 Malformed))) = []
   \<and> express_json ((post_signal 1 Malformed :: nat request)\<lparr>json_type := False\<rparr>)
       = Next (JObject [])"
  using malformed_body_rejected_by_parser [where rt = example_runtime and ack = "Fulfilled 1"
      and req = "post_signal 1 Malformed" and status = 400 and k = 1 and b = "JObject []"]
    malformed_body_rejected_by_parser [where rt = example_runtime and ack = "Fulfilled 1"
      and req = "(post_signal 1 Malformed)\<lparr>json_type := False\<rparr>" and status = 400 and k = 1
      and b = "JObject []"]
  by (simp add: post_signal_def body_limit_def reading)

subsection \<open>C3\<close>

text \<open>
  Claim C3 says that the process fails if the initial connection to the broker cannot be
  made. \<^verbatim>\<open>startServer\<close> waits at \<^verbatim>\<open>await client.connect()\<close>; the process fails only if
  that promise is rejected. With an unreachable broker the client keeps trying to
  connect, emits \<^verbatim>\<open>'error'\<close> for each failed attempt, which the listener logs, and the
  promise stays unsettled: the process neither serves nor fails. A process whose connection
  attempts have failed twice and whose promise has not settled is running, and a request
  sent to it is not accepted.
\<close>

theorem unreachable_broker_keeps_running:
  "running (run example_runtime boot
      [ClientError ''connect ECONNREFUSED'', ClientError ''connect ECONNREFUSED'',
       Request 0 (post_signal 2 (Json (JObject [])))])
   \<and> \<not> accepting (run example_runtime boot
      [ClientError ''connect ECONNREFUSED'', ClientError ''connect ECONNREFUSED'',
       Request 0 (post_signal 2 (Json (JObject [])))])"
  by (simp add: run_def boot_def startServer_until_await_def tagged_def accepting_def bound_def
      emit_error_def client_error_listeners_def)

text \<open>
  Claim C3, amended. In every execution the listener is opened only after
  \<^verbatim>\<open>await client.connect()\<close> has returned, the port is bound only after the listener was
  opened, and a request is handled only after the port was bound. As long as the
  connection has not been made the process does not serve: it accepts no request, handles
  none and does not open the listener. The process fails when \<^verbatim>\<open>client.connect()\<close>
  rejects: the rejection of \<^verbatim>\<open>startServer()\<close> is handled nowhere, the process ends, and
  it never served. While \<^verbatim>\<open>client.connect()\<close> stays unsettled the process keeps running
  without serving; it does not fail.
\<close>

theorem listen_only_after_connect:
  "precedes connected listen_called (trace (run rt boot ins))
   \<and> precedes listen_called bound (trace (run rt boot ins))
   \<and> precedes bound of_request (trace (run rt boot ins))
   \<and> (ConnectFulfilled \<notin> set ins \<longrightarrow>
        \<not> accepting (run rt boot ins) \<and> \<not> list_ex of_request (trace (run rt boot ins))
        \<and> \<not> list_ex listen_called (trace (run rt boot ins)))
   \<and> (ConnectFulfilled \<notin> set pre \<longrightarrow>
        \<not> running (run rt boot (pre @ ConnectRejected e # post))
        \<and> \<not> accepting (run rt boot (pre @ ConnectRejected e # post)))
   \<and> (\<not> list_ex connect_settled ins \<longrightarrow>
        running (run rt boot ins) \<and> \<not> accepting (run rt boot ins))"
proof (intro conjI impI)
  have "startup_order (run rt boot ins)"
    using startup_order_boot by (rule startup_order_run)
  then show "precedes connected listen_called (trace (run rt boot ins))"
    and "precedes listen_called bound (trace (run rt boot ins))"
    and "precedes bound of_request (trace (run rt boot ins))"
    by (simp_all add: startup_order_def)
next
  assume "ConnectFulfilled \<notin> set ins"
  with not_serving_boot have "not_serving (run rt boot ins)"
    by (rule not_serving_run)
  then show "\<not> accepting (run rt boot ins)"
    and "\<not> list_ex of_request (trace (run rt boot ins))"
    and "\<not> list_ex listen_called (trace (run rt boot ins))"
    by (simp_all add: not_serving_def)
next
  assume "ConnectFulfilled \<notin> set pre"
  with not_serving_boot have before: "not_serving (run rt boot pre)"
    by (rule not_serving_run)
  let ?failed = "step rt (run rt boot pre) (ConnectRejected e)"
  from before have stopped: "\<not> running ?failed"
    by (rule not_serving_rejected)
  from before have "not_serving ?failed"
    by (rule not_serving_step) simp
  moreover have "run rt boot (pre @ ConnectRejected e # post) = ?failed"
    using stopped by (simp add: run_append run_Cons run_stopped)
  ultimately show "\<not> running (run rt boot (pre @ ConnectRejected e # post))"
    and "\<not> accepting (run rt boot (pre @ ConnectRejected e # post))"
    using stopped by (simp_all add: not_serving_def)
next
  assume unsettled: "\<not> list_ex connect_settled ins"
  have "running boot \<and> starting boot \<and> \<not> binding boot"
    by (simp add: boot_def)
  then have "running (run rt boot ins) \<and> starting (run rt boot ins) \<and> \<not> binding (run rt boot ins)"
    using unsettled by (rule connecting_run)
  then show "running (run rt boot ins)"
    by simp
  from unsettled have "ConnectFulfilled \<notin> set ins"
    by (rule unsettled_no_fulfilled)
  with not_serving_boot have "not_serving (run rt boot ins)"
    by (rule not_serving_run)
  then show "\<not> accepting (run rt boot ins)"
    by (simp add: not_serving_def)
qed

text \<open>
  A process whose connection attempt has failed once and has not settled, sent a request;
  and a process whose connection is rejected, sent a request afterwards. A process whose
  connection is made binds the port, logs, and handles the request.
\<close>

theorem listen_only_after_connect_witness:
  "ConnectFulfilled \<notin> set [ClientError ''connect ECONNREFUSED'',
       Request 0 (post_signal 2 (Json (JObject []))) :: nat input]
   \<and> \<not> list_ex connect_settled [ClientError ''connect ECONNREFUSED'',
       Request 0 (post_signal 2 (Json (JObject []))) :: nat input]
   \<and> running (run example_runtime boot [ClientError ''connect ECONNREFUSED'',
       Request 0 (post_signal 2 (Json (JObject [])))])
   \<and> \<not> list_ex of_request (trace (run example_runtime boot
       [ClientError ''connect ECONNREFUSED'', Request 0 (post_signal 2 (Json (JObject [])))]))
   \<and> \<not> running (run example_runtime boot
       ([] @ ConnectRejected ''connect ECONNREFUSED'' #
        [Request 0 (post_signal 2 (Json (JObject [])))]))
   \<and> \<not> accepting (run example_runtime boot
       ([] @ ConnectRejected ''connect ECONNREFUSED'' #
        [Request 0 (post_signal 2 (Json (JObject [])))]))
   \<and> map snd (trace (run example_runtime boot
       [ConnectFulfilled, ListenSucceeds, Request 0 (post_signal 2 (Json (JObject [])))]))
     = [Connect, AwaitReturned, Listen 3000, Listening,
        ConsoleLog ''Server is running on port 3000'' [],
        BodyParser (Next (JObject [])),
        ConsoleLog ''Received signal:'' [Value (JObject [])],
        Publish ''trading-signals'' (units ''{}'')]"
  using listen_only_after_connect [where rt = example_runtime
      and ins = "[ClientError ''connect ECONNREFUSED'',
        Request 0 (post_signal 2 (Json (JObject [])))]"
      and pre = "[]" and e = "''connect ECONNREFUSED''"
      and post = "[Request 0 (post_signal 2 (Json (JObject [])))]"]
  by (simp add: run_def boot_def startServer_until_await_def tagged_def accepting_def bound_def
      connect_settles_def listen_settles_def startServer_resume_def listen_callback_def
      express_pipeline_def express_json_def post_signal_def body_limit_def routes_def
      handler_start_publishes stringify_empty_object)

subsection \<open>C4\<close>

text \<open>
  Claim C4 says that for every request handled the string published is the JSON
  serialization of the payload received in the body, with nothing filtered. A request
  \<^verbatim>\<open>POST /signal\<close> whose body \<^verbatim>\<open>{"a":true}\<close> is sent without the JSON content type is
  handled, and the string published is \<^verbatim>\<open>{}\<close>: the parser does not read the body and the
  payload is dropped. A request whose body is an array nested 4200 deep is handled and
  nothing is published.
\<close>

theorem unread_body_published_empty: \<open>
  publishes (fst (app example_runtime (Fulfilled 1)
      ((post_signal 10 (Json (JObject [(units ''a'', JBool True)])))\<lparr>json_type := False\<rparr>)))
    = [(''trading-signals'', units ''{}'')]
  \<and> serialize (number_text example_runtime) (JObject [(units ''a'', JBool True)])
    = units ''{"a":true}''
  \<and> units ''{"a":true}'' \<noteq> units ''{}''
  \<and> publishes (fst (app example_runtime (Fulfilled 1)
      (post_signal 8402 (Json (nest 4200))))) = []\<close>
proof -
  have "express_json (post_signal 8402 (Json (nest 4200 :: nat json))) = Next (nest 4200)"
    by (rule express_json_accepts)
      (simp_all add: post_signal_def body_limit_def structured_nest)
  moreover have "JSON_stringify example_runtime (nest 4200) =
      Inl ''RangeError: Maximum call stack size exceeded''"
    by (rule JSON_stringify_throws) (simp add: example_runtime_def nesting_nest)
  ultimately have "publishes (fst (app example_runtime (Fulfilled 1)
      (post_signal 8402 (Json (nest 4200))))) = []"
    by (simp add: app_handler post_signal_def signal_handler_simps reading)
  moreover have "publishes (fst (app example_runtime (Fulfilled 1)
      ((post_signal 10 (Json (JObject [(units ''a'', JBool True)])))\<lparr>json_type := False\<rparr>)))
    = [(''trading-signals'', units ''{}'')]"
    by (simp add: app_def express_pipeline_def express_json_def post_signal_def routes_def
        handler_start_publishes stringify_empty_object handler_resume_simps reading)
  moreover have \<open>serialize (number_text example_runtime) (JObject [(units ''a'', JBool True)])
    = units ''{"a":true}''\<close>
    by (simp add: units_def QuoteJSONString_def quote_unit_def is_high_def is_low_def)
  moreover have \<open>units ''{"a":true}'' \<noteq> units ''{}''\<close>
    by (simp add: units_def)
  ultimately show ?thesis
    by simp
qed

text \<open>
  Claim C4, amended. For every request \<^verbatim>\<open>POST /signal\<close>: if the body parser passes the
  request on with the value \<open>b\<close> as its body and \<open>b\<close> is nested no deeper than
  \<^verbatim>\<open>JSON.stringify\<close> can descend, the handler makes one publish call, however it ends, and
  the string published is the JSON serialization of \<open>b\<close>; if \<open>b\<close> is nested deeper, or
  the parser refuses the request, nothing is published. For a non-empty body presented as
  JSON that the parser accepts (supported charset and encoding, at most 100 kB, an object
  or an array), \<open>b\<close> is the payload received; for a request with no body or with a body
  not presented as JSON, \<open>b\<close> is the empty object whatever was sent, and the string
  published is \<^verbatim>\<open>{}\<close>. The serialization filters and adds nothing: two values whose numbers
  are printed as numbers and whose serializations are equal are the same value, up to the
  text of their numbers.
\<close>

theorem published_is_serialized_body:
  assumes "req_method req = ''POST''" and "req_path req = ''/signal''"
  shows "(express_json req = Next b \<and> nesting b \<le> stack_depth rt \<longrightarrow>
        publishes (fst (app rt ack req)) = [(''trading-signals'', serialize (number_text rt) b)])
     \<and> (express_json req = Next b \<and> stack_depth rt < nesting b \<longrightarrow>
        publishes (fst (app rt ack req)) = [])
     \<and> (express_json req = NextError status \<longrightarrow> publishes (fst (app rt ack req)) = [])
     \<and> (has_body req \<and> json_type req \<and> encoding_supported req \<and> 0 < body_length req
          \<and> body_length req \<le> body_limit \<and> body_text req = Json P \<and> is_structured P
          \<and> nesting P \<le> stack_depth rt \<longrightarrow>
        publishes (fst (app rt ack req)) = [(''trading-signals'', serialize (number_text rt) P)])
     \<and> (\<not> has_body req \<or> \<not> json_type req \<longrightarrow>
        publishes (fst (app rt ack req)) = [(''trading-signals'', units ''{}'')])
     \<and> (numeric (number_text rt) v \<and> numeric (number_text rt) w
          \<and> serialize (number_text rt) v = serialize (number_text rt) w \<longrightarrow>
        map_json (number_text rt) v = map_json (number_text rt) w)"
proof -
  have shallow: "publishes (fst (app rt ack req)) =
      [(''trading-signals'', serialize (number_text rt) x)]"
    if "express_json req = Next x" and "nesting x \<le> stack_depth rt" for x
  proof -
    from that(1) assms have "publishes (fst (app rt ack req)) =
        publishes (fst (signal_handler rt ack x))"
      by (simp add: app_handler reading)
    moreover from that(2) have "JSON_stringify rt x = Inr (serialize (number_text rt) x)"
      by (rule JSON_stringify_returns)
    ultimately show ?thesis
      by (simp add: publishes_signal_handler)
  qed
  have deep: "publishes (fst (app rt ack req)) = []"
    if "express_json req = Next x" and "stack_depth rt < nesting x" for x
  proof -
    from that(1) assms have "publishes (fst (app rt ack req)) =
        publishes (fst (signal_handler rt ack x))"
      by (simp add: app_handler reading)
    moreover from that(2) have "JSON_stringify rt x =
        Inl ''RangeError: Maximum call stack size exceeded''"
      by (rule JSON_stringify_throws)
    ultimately show ?thesis
      by (simp add: publishes_signal_handler)
  qed
  have refused: "publishes (fst (app rt ack req)) = []"
    if "express_json req = NextError status"
    using that by (simp add: app_parse_error reading)
  have accepted: "publishes (fst (app rt ack req)) =
      [(''trading-signals'', serialize (number_text rt) P)]"
    if "has_body req" and "json_type req" and "encoding_supported req"
      and "0 < body_length req" and "body_length req \<le> body_limit"
      and "body_text req = Json P" and "is_structured P" and "nesting P \<le> stack_depth rt"
  proof -
    from that(1-7) have "express_json req = Next P"
      by (rule express_json_accepts)
    then show ?thesis
      using that(8) by (rule shallow)
  qed
  have unread: "publishes (fst (app rt ack req)) = [(''trading-signals'', units ''{}'')]"
    if "\<not> has_body req \<or> \<not> json_type req"
  proof -
    from that have "express_json req = Next (JObject [])"
      by (rule express_json_skips)
    then have "publishes (fst (app rt ack req)) =
        [(''trading-signals'', serialize (number_text rt) (JObject []))]"
      by (rule shallow) simp
    then show ?thesis
      by (simp add: units_def)
  qed
  have same: "map_json (number_text rt) v = map_json (number_text rt) w"
    if "numeric (number_text rt) v" and "numeric (number_text rt) w"
      and "serialize (number_text rt) v = serialize (number_text rt) w"
    using serialize_unique [of "number_text rt" v w "[]" "[]"] that by simp
  from shallow deep refused accepted unread same show ?thesis
    by blast
qed

text \<open>
  The payload \<^verbatim>\<open>{"symbol":"A\"B","qty":[10,null]}\<close>, with a quotation mark inside a string,
  sent as JSON while the publish call stays unsettled: the string published is the
  payload's serialization, with the quotation mark escaped.
\<close>

theorem published_is_serialized_body_witness: \<open>
  express_json (post_signal 33 (Json (JObject [(units ''symbol'', JString (units ''A"B'')),
      (units ''qty'', JArray [JNumber 10, JNull])])) :: nat request)
    = Next (JObject [(units ''symbol'', JString (units ''A"B'')),
        (units ''qty'', JArray [JNumber 10, JNull])])
  \<and> nesting (JObject [(units ''symbol'', JString (units ''A"B'')),
        (units ''qty'', JArray [JNumber 10, JNull])] :: nat json) \<le> stack_depth example_runtime
  \<and> numeric (number_text example_runtime) (JObject [(units ''symbol'', JString (units ''A"B'')),
        (units ''qty'', JArray [JNumber 10, JNull])])
  \<and> publishes (fst (app example_runtime Pending
      (post_signal 33 (Json (JObject [(units ''symbol'', JString (units ''A"B'')),
        (units ''qty'', JArray [JNumber 10, JNull])])))))
    = [(''trading-signals'',
        units ''{"symbol":"A'' @ [92, 34] @ units ''B","qty":[10,null]}'')]\<close>
  using published_is_serialized_body [where rt = example_runtime and ack = Pending
      and req = "post_signal 33 (Json (JObject [(units ''symbol'', JString (units [CHR ''A'', CHR 0x22, CHR ''B''])),
        (units ''qty'', JArray [JNumber 10, JNull])]))"
      and b = "JObject [(units ''symbol'', JString (units [CHR ''A'', CHR 0x22, CHR ''B''])),
        (units ''qty'', JArray [JNumber 10, JNull])]"
      and P = "JObject [(units ''symbol'', JString (units [CHR ''A'', CHR 0x22, CHR ''B''])),
        (units ''qty'', JArray [JNumber 10, JNull])]"
      and v = "JObject [(units ''symbol'', JString (units [CHR ''A'', CHR 0x22, CHR ''B''])),
        (units ''qty'', JArray [JNumber 10, JNull])]"
      and w = "JObject [(units ''symbol'', JString (units [CHR ''A'', CHR 0x22, CHR ''B''])),
        (units ''qty'', JArray [JNumber 10, JNull])]"]
  by (simp add: post_signal_def body_limit_def example_runtime_def express_json_def units_def
      QuoteJSONString_def quote_unit_def is_high_def is_low_def numeric_text_def
      number_unit_def)

subsection \<open>C5\<close>

text \<open>
  Claim C5 says that when the publish call fails no message is delivered to any
  subscriber. The handler sees only that the promise of \<^verbatim>\<open>client.publish\<close> was rejected,
  and answers 500; it cannot tell a command that never reached the broker from one the
  broker carried out before the connection failed. A publish call whose command the
  broker delivered to one subscriber and whose reply was lost fails, and the request is
  answered with status 500.
\<close>

theorem failed_publish_delivered:
  "promise_of (ReplyLost ''Socket closed unexpectedly'' 1) = Rejected ''Socket closed unexpectedly''
   \<and> sends (fst (app example_runtime (promise_of (ReplyLost ''Socket closed unexpectedly'' 1))
        (post_signal 2 (Json (JObject []))))) = [(500, ''Error publishing signal'')]
   \<and> delivered_to (ReplyLost ''Socket closed unexpectedly'' 1) = 1"
  by (simp add: app_def express_pipeline_def express_json_def post_signal_def body_limit_def
      routes_def handler_start_publishes stringify_empty_object handler_resume_simps reading)

text \<open>
  Claim C5, amended. For every request \<^verbatim>\<open>POST /signal\<close> that reaches the handler and
  whose publish call is made and fails with the error \<open>e\<close>: the request gets one
  response, status 500 with the text \<^verbatim>\<open>Error publishing signal\<close>; \<open>e\<close> is logged with
  \<^verbatim>\<open>console.error\<close>; exactly one publish call is made for the request (no retry); and the
  handler returns. The response does not say whether the message was delivered: a call
  that failed after the broker delivered the message is answered exactly as one whose
  command was never sent.
\<close>

theorem publish_failure_answers_500:
  assumes "req_method req = ''POST''" and "req_path req = ''/signal''"
    and "express_json req = Next v" and "JSON_stringify rt v = Inr m"
    and "promise_of w = Rejected e"
  shows "sends (fst (app rt (promise_of w) req)) = [(500, ''Error publishing signal'')]
     \<and> statuses (fst (app rt (promise_of w) req)) = [500]
     \<and> ConsoleError ''Error publishing signal:'' [Thrown e] \<in> set (fst (app rt (promise_of w) req))
     \<and> publishes (fst (app rt (promise_of w) req)) = [(''trading-signals'', m)]
     \<and> snd (app rt (promise_of w) req) = Returns
     \<and> app rt (promise_of (ReplyLost e receivers)) req = app rt (promise_of (NotSent e)) req"
proof -
  from assms(3,1,2) have "app rt a req =
      (BodyParser (Next v) # fst (signal_handler rt a v), snd (signal_handler rt a v))" for a
    by (rule app_handler)
  with assms(4,5) show ?thesis
    by (simp add: signal_handler_simps reading)
qed

text \<open>A publish call on a closed client: the command is not sent and the promise is rejected.\<close>

theorem publish_failure_answers_500_witness:
  "express_json (post_signal 2 (Json (JObject [])) :: nat request) = Next (JObject [])
   \<and> JSON_stringify example_runtime (JObject []) = Inr (units ''{}'')
   \<and> promise_of (NotSent ''The client is closed'') = Rejected ''The client is closed''
   \<and> app example_runtime (promise_of (NotSent ''The client is closed''))
        (post_signal 2 (Json (JObject [])))
     = ([BodyParser (Next (JObject [])),
         ConsoleLog ''Received signal:'' [Value (JObject [])],
         Publish ''trading-signals'' (units ''{}''),
         AwaitThrew ''The client is closed'',
         ConsoleError ''Error publishing signal:'' [Thrown ''The client is closed''],
         Send 500 ''Error publishing signal''], Returns)
   \<and> sends (fst (app example_runtime (promise_of (NotSent ''The client is closed''))
        (post_signal 2 (Json (JObject []))))) = [(500, ''Error publishing signal'')]"
  using publish_failure_answers_500 [where rt = example_runtime
      and req = "post_signal 2 (Json (JObject []))" and v = "JObject []" and m = "units ''{}''"
      and w = "NotSent ''The client is closed''" and e = "''The client is closed''"]
  by (simp add: app_def express_pipeline_def express_json_def post_signal_def body_limit_def
      routes_def handler_start_publishes stringify_empty_object handler_resume_simps)

subsection \<open>C6\<close>

text \<open>
  Claim C6 says that for every request the response is sent only after the body was
  handed to the publish operation and its acknowledgment awaited. When
  \<^verbatim>\<open>JSON.stringify(signal)\<close> throws, the argument of \<^verbatim>\<open>client.publish\<close> is never
  computed: the handler's \<^verbatim>\<open>catch\<close> sends the 500 response although no publish call was
  made and none awaited. A body that is an array nested 4200 deep does this.
\<close>

theorem stringify_throws_before_publish:
  "fst (app example_runtime (Fulfilled 1) (post_signal 8402 (Json (nest 4200)))) =
     [BodyParser (Next (nest 4200)),
      ConsoleLog ''Received signal:'' [Value (nest 4200)],
      StringifyThrew ''RangeError: Maximum call stack size exceeded'',
      ConsoleError ''Error publishing signal:''
        [Thrown ''RangeError: Maximum call stack size exceeded''],
      Send 500 ''Error publishing signal'']
   \<and> \<not> precedes is_settled is_send
        (fst (app example_runtime (Fulfilled 1) (post_signal 8402 (Json (nest 4200)))))
   \<and> \<not> precedes is_publish is_send
        (fst (app example_runtime (Fulfilled 1) (post_signal 8402 (Json (nest 4200)))))"
proof -
  have "express_json (post_signal 8402 (Json (nest 4200 :: nat json))) = Next (nest 4200)"
    by (rule express_json_accepts)
      (simp_all add: post_signal_def body_limit_def structured_nest)
  moreover have "JSON_stringify example_runtime (nest 4200) =
      Inl ''RangeError: Maximum call stack size exceeded''"
    by (rule JSON_stringify_throws) (simp add: example_runtime_def nesting_nest)
  ultimately have "fst (app example_runtime (Fulfilled 1) (post_signal 8402 (Json (nest 4200)))) =
     [BodyParser (Next (nest 4200)),
      ConsoleLog ''Received signal:'' [Value (nest 4200)],
      StringifyThrew ''RangeError: Maximum call stack size exceeded'',
      ConsoleError ''Error publishing signal:''
        [Thrown ''RangeError: Maximum call stack size exceeded''],
      Send 500 ''Error publishing signal'']"
    by (simp add: app_handler post_signal_def signal_handler_simps)
  then show ?thesis
    by simp
qed

text \<open>
  Claim C6, amended. In every execution of the application on a request: a publish call
  comes only after the body parser, a response of the handler only after the body parser,
  the settlement of the awaited publish call only after the call, and the 200 response
  only after \<^verbatim>\<open>await client.publish(...)\<close> has returned. A response of the handler comes
  only after the awaited publish call has settled or \<^verbatim>\<open>JSON.stringify\<close> has thrown; when a
  publish call was made, only after it has settled. With a body that can be serialized
  and a publish call that succeeds the steps are: body parser, log, publish call, return
  of the \<^verbatim>\<open>await\<close>, response 200. With a body on which \<^verbatim>\<open>JSON.stringify\<close> throws they
  are: body parser, log, the throw, error log, response 500, with no publish call.
\<close>

theorem handler_steps_in_order:
  "precedes is_parse is_publish (fst (app rt ack req))
   \<and> precedes is_parse is_send (fst (app rt ack req))
   \<and> precedes is_publish is_settled (fst (app rt ack req))
   \<and> precedes is_returned is_success (fst (app rt ack req))
   \<and> precedes (\<lambda>ev. is_settled ev \<or> is_thrown ev) is_send (fst (app rt ack req))
   \<and> (list_ex is_publish (fst (app rt ack req)) \<longrightarrow>
        precedes is_settled is_send (fst (app rt ack req)))
   \<and> (req_method req = ''POST'' \<and> req_path req = ''/signal''
        \<and> express_json req = Next v \<and> JSON_stringify rt v = Inr m \<longrightarrow>
        fst (app rt (Fulfilled k) req) =
          [BodyParser (Next v),
           ConsoleLog ''Received signal:'' [Value v],
           Publish ''trading-signals'' m,
           AwaitReturned,
           Send 200 ''Signal received and published''])
   \<and> (req_method req = ''POST'' \<and> req_path req = ''/signal''
        \<and> express_json req = Next v \<and> JSON_stringify rt v = Inl x \<longrightarrow>
        fst (app rt ack req) =
          [BodyParser (Next v),
           ConsoleLog ''Received signal:'' [Value v],
           StringifyThrew x,
           ConsoleError ''Error publishing signal:'' [Thrown x],
           Send 500 ''Error publishing signal''])"
proof -
  have order: "precedes is_parse is_publish (fst (app rt ack req))
     \<and> precedes is_parse is_send (fst (app rt ack req))
     \<and> precedes is_publish is_settled (fst (app rt ack req))
     \<and> precedes is_returned is_success (fst (app rt ack req))
     \<and> precedes (\<lambda>ev. is_settled ev \<or> is_thrown ev) is_send (fst (app rt ack req))
     \<and> (list_ex is_publish (fst (app rt ack req)) \<longrightarrow>
          precedes is_settled is_send (fst (app rt ack req)))"
  proof (cases "express_json req")
    case (NextError status)
    then show ?thesis
      by (simp add: app_parse_error)
  next
    case (Next w)
    show ?thesis
    proof (cases "req_method req = ''POST'' \<and> req_path req = ''/signal''")
      case False
      with Next show ?thesis
        by (simp add: app_unrouted)
    next
      case True
      with Next have handled: "app rt ack req =
          (BodyParser (Next w) # fst (signal_handler rt ack w), snd (signal_handler rt ack w))"
        by (simp add: app_handler)
      show ?thesis
      proof (cases "JSON_stringify rt w")
        case (Inl thrown)
        with handled show ?thesis
          by (simp add: signal_handler_simps)
      next
        case (Inr message)
        with handled show ?thesis
          by (cases ack) (simp_all add: signal_handler_simps)
      qed
    qed
  qed
  have "fst (app rt (Fulfilled k) req) =
      [BodyParser (Next v), ConsoleLog ''Received signal:'' [Value v],
       Publish ''trading-signals'' m, AwaitReturned,
       Send 200 ''Signal received and published'']"
    if "req_method req = ''POST''" and "req_path req = ''/signal''"
      and "express_json req = Next v" and "JSON_stringify rt v = Inr m"
    using that by (simp add: app_handler signal_handler_simps)
  moreover have "fst (app rt ack req) =
      [BodyParser (Next v), ConsoleLog ''Received signal:'' [Value v],
       StringifyThrew x, ConsoleError ''Error publishing signal:'' [Thrown x],
       Send 500 ''Error publishing signal'']"
    if "req_method req = ''POST''" and "req_path req = ''/signal''"
      and "express_json req = Next v" and "JSON_stringify rt v = Inl x"
    using that by (simp add: app_handler signal_handler_simps)
  ultimately show ?thesis
    using order by blast
qed

text \<open>The body \<^verbatim>\<open>{}\<close> sent as JSON, with a publish call that reaches one subscriber.\<close>

theorem handler_steps_in_order_witness:
  "express_json (post_signal 2 (Json (JObject [])) :: nat request) = Next (JObject [])
   \<and> JSON_stringify example_runtime (JObject []) = Inr (units ''{}'')
   \<and> list_ex is_publish (fst (app example_runtime (Fulfilled 1)
        (post_signal 2 (Json (JObject [])))))
   \<and> precedes is_settled is_send (fst (app example_runtime (Fulfilled 1)
        (post_signal 2 (Json (JObject [])))))
   \<and> fst (app example_runtime (Fulfilled 1) (post_signal 2 (Json (JObject [])))) =
       [BodyParser (Next (JObject [])),
        ConsoleLog ''Received signal:'' [Value (JObject [])],
        Publish ''trading-signals'' (units ''{}''),
        AwaitReturned,
        Send 200 ''Signal received and published'']"
  using handler_steps_in_order [where rt = example_runtime and ack = "Fulfilled 1" and k = 1
      and req = "post_signal 2 (Json (JObject []))" and v = "JObject []" and m = "units ''{}''"]
  by (simp add: app_def express_pipeline_def express_json_def post_signal_def body_limit_def
      routes_def handler_start_publishes stringify_empty_object handler_resume_simps)

subsection \<open>C7\<close>

text \<open>
  Claim C7. The client has a listener for \<^verbatim>\<open>'error'\<close>, so an error of the connection is
  handled: in a running process it adds one line to the log and changes nothing else. The
  process keeps running, the suspended handlers stay suspended, and no request gets an
  event from it. An error of a publish call goes to the handler that awaits that call: the
  request gets its 500, every other request is left as it was, and the process keeps
  running.
\<close>

theorem client_error_only_logged:
  fixes s :: "'n server"
  assumes "running s"
  shows "emit_error client_error_listeners e =
           Some ([ConsoleLog ''Redis Client Error'' [Thrown e]] :: 'n event list)
     \<and> step rt s (ClientError e) =
         s\<lparr>trace := trace s @ [(None, ConsoleLog ''Redis Client Error'' [Thrown e])]\<rparr>
     \<and> running (step rt s (ClientError e))
     \<and> awaiting (step rt s (ClientError e)) = awaiting s
     \<and> events_of r (trace (step rt s (ClientError e))) = events_of r (trace s)
     \<and> (rid \<in> set (awaiting s) \<longrightarrow>
          events_of rid (trace (step rt s (PublishRejected rid e))) =
            events_of rid (trace s) @
              [AwaitThrew e, ConsoleError ''Error publishing signal:'' [Thrown e],
               Send 500 ''Error publishing signal'']
          \<and> (r \<noteq> rid \<longrightarrow>
               events_of r (trace (step rt s (PublishRejected rid e))) = events_of r (trace s))
          \<and> running (step rt s (PublishRejected rid e)))"
proof -
  have emitted: "emit_error client_error_listeners e =
      Some ([ConsoleLog ''Redis Client Error'' [Thrown e]] :: 'n event list)"
    by (simp add: emit_error_def client_error_listeners_def)
  with assms have logged: "step rt s (ClientError e) =
      s\<lparr>trace := trace s @ [(None, ConsoleLog ''Redis Client Error'' [Thrown e])]\<rparr>"
    by (simp add: tagged_def)
  have alive: "running (step rt s (ClientError e))"
    and waiting: "awaiting (step rt s (ClientError e)) = awaiting s"
    and same: "events_of r (trace (step rt s (ClientError e))) = events_of r (trace s)"
    unfolding logged using assms by (simp_all add: events_of_def)
  have failed: "events_of rid (trace (step rt s (PublishRejected rid e))) =
        events_of rid (trace s) @
          [AwaitThrew e, ConsoleError ''Error publishing signal:'' [Thrown e],
           Send 500 ''Error publishing signal'']
      \<and> (r \<noteq> rid \<longrightarrow>
           events_of r (trace (step rt s (PublishRejected rid e))) = events_of r (trace s))
      \<and> running (step rt s (PublishRejected rid e))"
    if "rid \<in> set (awaiting s)"
  proof -
    from assms that have "step rt s (PublishRejected rid e) =
        s\<lparr>awaiting := remove1 rid (awaiting s),
          trace := trace s @ tagged (Some rid)
            [AwaitThrew e, ConsoleError ''Error publishing signal:'' [Thrown e],
             Send 500 ''Error publishing signal'']\<rparr>"
      by (simp add: publish_settles_def handler_resume_simps)
    then show ?thesis
      using assms by (simp add: events_of_def tagged_def)
  qed
  from emitted logged alive waiting same failed show ?thesis
    by blast
qed

text \<open>
  A process with requests 7 and 8 suspended at their publish calls: a connection error only
  adds the log line; the failure of the publish call of request 7 answers request 7.
\<close>

theorem client_error_only_logged_witness:
  "running (\<lparr>running = True, starting = False, binding = False, awaiting = [7, 8],
       trace = [(Some 7, Publish ''trading-signals'' (units ''{}'')),
                (Some 8, Publish ''trading-signals'' (units ''[]''))]\<rparr> :: nat server)
   \<and> step example_runtime
        \<lparr>running = True, starting = False, binding = False, awaiting = [7, 8],
         trace = [(Some 7, Publish ''trading-signals'' (units ''{}'')),
                  (Some 8, Publish ''trading-signals'' (units ''[]''))]\<rparr>
        (ClientError ''Socket closed unexpectedly'')
      = \<lparr>running = True, starting = False, binding = False, awaiting = [7, 8],
         trace = [(Some 7, Publish ''trading-signals'' (units ''{}'')),
                  (Some 8, Publish ''trading-signals'' (units ''[]'')),
                  (None, ConsoleLog ''Redis Client Error''
                     [Thrown ''Socket closed unexpectedly''])]\<rparr>
   \<and> 7 \<in> set (awaiting (\<lparr>running = True, starting = False, binding = False,
         awaiting = [7, 8],
         trace = [(Some 7, Publish ''trading-signals'' (units ''{}'')),
                  (Some 8, Publish ''trading-signals'' (units ''[]''))]\<rparr> :: nat server))
   \<and> step example_runtime
        \<lparr>running = True, starting = False, binding = False, awaiting = [7, 8],
         trace = [(Some 7, Publish ''trading-signals'' (units ''{}'')),
                  (Some 8, Publish ''trading-signals'' (units ''[]''))]\<rparr>
        (PublishRejected 7 ''Socket closed unexpectedly'')
      = \<lparr>running = True, starting = False, binding = False, awaiting = [8],
         trace = [(Some 7, Publish ''trading-signals'' (units ''{}'')),
                  (Some 8, Publish ''trading-signals'' (units ''[]'')),
                  (Some 7, AwaitThrew ''Socket closed unexpectedly''),
                  (Some 7, ConsoleError ''Error publishing signal:''
                     [Thrown ''Socket closed unexpectedly'']),
                  (Some 7, Send 500 ''Error publishing signal'')]\<rparr>"
  using client_error_only_logged
    [where s = "\<lparr>running = True, starting = False, binding = False, awaiting = [7, 8],
         trace = [(Some 7, Publish ''trading-signals'' (units ''{}'')),
                  (Some 8, Publish ''trading-signals'' (units ''[]''))]\<rparr> :: nat server"
      and e = "''Socket closed unexpectedly''" and rt = example_runtime and rid = 7 and r = 8]
  by (simp add: publish_settles_def handler_resume_simps tagged_def)

subsection \<open>C8\<close>

text \<open>
  Claim C8. The port, the route and the channel are constants of the program. In every
  execution every listener is opened on port 3000 and every publish call is on the channel
  \<^verbatim>\<open>trading-signals\<close>; the only route is \<^verbatim>\<open>POST /signal\<close>, and a request for anything
  else gets no response from the program (Express answers it) and publishes nothing.
  Nothing the surroundings supply (the outcome of the connection, the requests, the
  outcomes of the publish calls) changes them.
\<close>

theorem interface_constants_fixed:
  "(\<forall>ev \<in> set (trace (run rt boot ins)). fixed_interface (snd ev))
   \<and> (\<forall>port \<in> set (listens (fst (startServer conn))). port = 3000)
   \<and> (\<forall>p \<in> set (publishes (fst (app rt ack req))). fst p = ''trading-signals'')
   \<and> routes = [(''POST'', ''/signal'')]
   \<and> (\<not> (req_method req = ''POST'' \<and> req_path req = ''/signal'') \<longrightarrow>
        publishes (fst (app rt ack req)) = [] \<and> sends (fst (app rt ack req)) = [])"
proof (intro conjI)
  have "\<forall>ev \<in> set (trace boot). fixed_interface (snd ev)"
    by (simp add: boot_def startServer_until_await_def tagged_def)
  then show "\<forall>ev \<in> set (trace (run rt boot ins)). fixed_interface (snd ev)"
    by (rule fixed_run)
next
  show "\<forall>port \<in> set (listens (fst (startServer conn))). port = 3000"
    by (cases conn) (simp_all add: startServer_simps reading)
next
  show "routes = [(''POST'', ''/signal'')]"
    by (simp add: routes_def)
next
  show "\<forall>p \<in> set (publishes (fst (app rt ack req))). fst p = ''trading-signals''"
  proof (cases "express_json req")
    case (NextError status)
    then show ?thesis by (simp add: app_parse_error reading)
  next
    case (Next v)
    show ?thesis
    proof (cases "req_method req = ''POST'' \<and> req_path req = ''/signal''")
      case False
      with Next show ?thesis by (simp add: app_unrouted reading)
    next
      case True
      with Next have "publishes (fst (app rt ack req)) = publishes (fst (signal_handler rt ack v))"
        by (simp add: app_handler reading)
      then show ?thesis
        by (simp add: publishes_signal_handler split: sum.splits)
    qed
  qed
next
  show "\<not> (req_method req = ''POST'' \<and> req_path req = ''/signal'') \<longrightarrow>
        publishes (fst (app rt ack req)) = [] \<and> sends (fst (app rt ack req)) = []"
  proof (cases "express_json req")
    case (NextError status)
    then show ?thesis by (simp add: app_parse_error reading)
  next
    case (Next v)
    then show ?thesis by (auto simp add: app_unrouted reading)
  qed
qed

text \<open>
  A process that connects, binds the port and handles a request \<^verbatim>\<open>POST /signal\<close> with no
  body; and a request \<^verbatim>\<open>GET /signal\<close>, which Express answers with status 404.
\<close>

theorem interface_constants_fixed_witness:
  "listens (map snd (trace (run example_runtime boot
      [ConnectFulfilled, ListenSucceeds,
       Request 1 ((post_signal 0 Malformed)\<lparr>has_body := False\<rparr>)]))) = [3000]
   \<and> publishes (map snd (trace (run example_runtime boot
      [ConnectFulfilled, ListenSucceeds,
       Request 1 ((post_signal 0 Malformed)\<lparr>has_body := False\<rparr>)])))
     = [(''trading-signals'', units ''{}'')]
   \<and> listens (fst (startServer (Fulfilled ()) :: nat event list \<times> completion)) = [3000]
   \<and> \<not> (req_method ((post_signal 0 Malformed :: nat request)
            \<lparr>req_method := ''GET'', has_body := False\<rparr>) = ''POST''
         \<and> req_path ((post_signal 0 Malformed :: nat request)
            \<lparr>req_method := ''GET'', has_body := False\<rparr>) = ''/signal'')
   \<and> fst (app example_runtime (Fulfilled 1)
        ((post_signal 0 Malformed)\<lparr>req_method := ''GET'', has_body := False\<rparr>))
      = [BodyParser (Next (JObject [])), Finalhandler 404]"
  using interface_constants_fixed [where rt = example_runtime and ack = "Fulfilled 1"
      and ins = "[ConnectFulfilled, ListenSucceeds,
        Request 1 ((post_signal 0 Malformed)\<lparr>has_body := False\<rparr>)]"
      and conn = "Fulfilled ()"
      and req = "(post_signal 0 Malformed)\<lparr>req_method := ''GET'', has_body := False\<rparr>"]
  by (simp add: run_def boot_def startServer_until_await_def tagged_def connect_settles_def
      listen_settles_def listen_callback_def startServer_resume_def startServer_def
      accepting_def bound_def express_pipeline_def express_json_def post_signal_def routes_def
      allowed_def handler_start_publishes stringify_empty_object app_def reading)

subsection \<open>C9\<close>

text \<open>
  Claim C9 says that every request that reaches the handler gets exactly one response.
  A request whose publish call never settles gets none: the handler stays suspended at
  the \<^verbatim>\<open>await\<close>, and nothing in the file bounds the wait.
\<close>

theorem unsettled_publish_no_response:
  "statuses (fst (signal_handler example_runtime Pending (JObject []))) = []
   \<and> snd (signal_handler example_runtime Pending (JObject [])) = Hangs"
  by (simp add: signal_handler_simps stringify_empty_object reading)

text \<open>
  Claim C9, amended. No exception escapes the handler: every error raised inside it, that
  of \<^verbatim>\<open>JSON.stringify\<close> and that of a rejected publish call, is caught and converted to
  the 500 response. A request that reaches the handler gets exactly one response as soon
  as \<^verbatim>\<open>JSON.stringify\<close> throws or the publish call settles: its status is 200 or 500 and
  its text is \<^verbatim>\<open>Signal received and published\<close> or \<^verbatim>\<open>Error publishing signal\<close>, and the
  handler returns. While the publish call stays unsettled the handler stays suspended and
  sends no response.
\<close>

theorem handler_answers_once_settled:
  "((ack \<noteq> Pending \<or> isl (JSON_stringify rt signal)) \<longrightarrow>
      (sends (fst (signal_handler rt ack signal)) = [(200, ''Signal received and published'')]
       \<or> sends (fst (signal_handler rt ack signal)) = [(500, ''Error publishing signal'')])
      \<and> (statuses (fst (signal_handler rt ack signal)) = [200]
       \<or> statuses (fst (signal_handler rt ack signal)) = [500])
      \<and> snd (signal_handler rt ack signal) = Returns)
   \<and> ((isl (JSON_stringify rt signal) \<or> ack = Rejected e) \<longrightarrow>
        sends (fst (signal_handler rt ack signal)) = [(500, ''Error publishing signal'')])
   \<and> (ack = Pending \<and> \<not> isl (JSON_stringify rt signal) \<longrightarrow>
        sends (fst (signal_handler rt ack signal)) = []
        \<and> statuses (fst (signal_handler rt ack signal)) = []
        \<and> snd (signal_handler rt ack signal) = Hangs)
   \<and> snd (signal_handler rt ack signal) \<noteq> Throws x"
proof (cases "JSON_stringify rt signal")
  case (Inl thrown)
  then show ?thesis
    by (simp add: signal_handler_simps reading)
next
  case (Inr message)
  then show ?thesis
    by (cases ack) (simp_all add: signal_handler_simps reading)
qed

text \<open>
  The body \<^verbatim>\<open>{}\<close> with a publish call that fails, and an array nested 4200 deep, on which
  \<^verbatim>\<open>JSON.stringify\<close> throws, with a publish call that would never settle.
\<close>

theorem handler_answers_once_settled_witness:
  "signal_handler example_runtime (Rejected ''The client is closed'') (JObject []) =
     ([ConsoleLog ''Received signal:'' [Value (JObject [])],
       Publish ''trading-signals'' (units ''{}''),
       AwaitThrew ''The client is closed'',
       ConsoleError ''Error publishing signal:'' [Thrown ''The client is closed''],
       Send 500 ''Error publishing signal''], Returns)
   \<and> sends (fst (signal_handler example_runtime (Rejected ''The client is closed'')
        (JObject []))) = [(500, ''Error publishing signal'')]
   \<and> isl (JSON_stringify example_runtime (nest 4200))
   \<and> sends (fst (signal_handler example_runtime Pending (nest 4200)))
       = [(500, ''Error publishing signal'')]
   \<and> snd (signal_handler example_runtime Pending (nest 4200)) = Returns"
  using handler_answers_once_settled [where rt = example_runtime
      and ack = "Rejected ''The client is closed''" and signal = "JObject []"
      and e = "''The client is closed''"]
    handler_answers_once_settled [where rt = example_runtime
      and ack = Pending and signal = "nest 4200"]
    JSON_stringify_throws [of example_runtime "nest 4200"]
  by (simp add: signal_handler_simps stringify_empty_object example_runtime_def nesting_nest)

subsection \<open>C10\<close>

text \<open>
  Claim C10. A request \<^verbatim>\<open>POST /signal\<close> whose body is absent or not presented as JSON is
  not refused: the body parser passes it on with the empty object as its body, and the
  handler makes one publish call, on \<^verbatim>\<open>trading-signals\<close>, with the two-character message
  \<^verbatim>\<open>{}\<close>, however that call ends. When the call succeeds the request gets one response,
  status 200 with the text \<^verbatim>\<open>Signal received and published\<close>.
\<close>

theorem absent_body_publishes_empty_object:
  assumes "req_method req = ''POST''" and "req_path req = ''/signal''"
    and "\<not> has_body req \<or> \<not> json_type req"
  shows "express_json req = Next (JObject [])
     \<and> publishes (fst (app rt ack req)) = [(''trading-signals'', units ''{}'')]
     \<and> length (units ''{}'') = 2
     \<and> sends (fst (app rt (Fulfilled k) req)) = [(200, ''Signal received and published'')]
     \<and> statuses (fst (app rt (Fulfilled k) req)) = [200]"
proof -
  from assms(3) have skipped: "express_json req = Next (JObject [])"
    by (rule express_json_skips)
  then have handled: "app rt a req =
      (BodyParser (Next (JObject [])) # fst (signal_handler rt a (JObject [])),
       snd (signal_handler rt a (JObject [])))" for a
    using assms(1,2) by (rule app_handler)
  have "publishes (fst (app rt ack req)) = publishes (fst (signal_handler rt ack (JObject [])))"
    by (simp add: handled reading)
  then have "publishes (fst (app rt ack req)) = [(''trading-signals'', units ''{}'')]"
    by (simp add: publishes_signal_handler stringify_empty_object)
  moreover have "sends (fst (app rt (Fulfilled k) req)) = [(200, ''Signal received and published'')]"
    and "statuses (fst (app rt (Fulfilled k) req)) = [200]"
    by (simp_all add: handled signal_handler_simps stringify_empty_object reading)
  ultimately show ?thesis
    using skipped by (simp add: units_def)
qed

text \<open>A request with no body, and a request whose body \<^verbatim>\<open>hello\<close> is sent as plain text.\<close>

theorem absent_body_publishes_empty_object_witness:
  "\<not> has_body ((post_signal 0 Malformed :: nat request)\<lparr>has_body := False\<rparr>)
   \<and> fst (app example_runtime (Fulfilled 0) ((post_signal 0 Malformed)\<lparr>has_body := False\<rparr>))
     = [BodyParser (Next (JObject [])),
        ConsoleLog ''Received signal:'' [Value (JObject [])],
        Publish ''trading-signals'' (units ''{}''),
        AwaitReturned,
        Send 200 ''Signal received and published'']
   \<and> \<not> json_type ((post_signal 5 Malformed :: nat request)\<lparr>json_type := False\<rparr>)
   \<and> publishes (fst (app example_runtime (Fulfilled 0)
        ((post_signal 5 Malformed)\<lparr>json_type := False\<rparr>)))
     = [(''trading-signals'', units ''{}'')]
   \<and> statuses (fst (app example_runtime (Fulfilled 0)
        ((post_signal 5 Malformed)\<lparr>json_type := False\<rparr>))) = [200]
   \<and> length (snd (hd (publishes (fst (app example_runtime (Fulfilled 0)
        ((post_signal 5 Malformed)\<lparr>json_type := False\<rparr>)))))) = 2"
  using absent_body_publishes_empty_object [where rt = example_runtime and ack = "Fulfilled 0"
      and k = 0 and req = "(post_signal 0 Malformed)\<lparr>has_body := False\<rparr>"]
    absent_body_publishes_empty_object [where rt = example_runtime and ack = "Fulfilled 0"
      and k = 0 and req = "(post_signal 5 Malformed)\<lparr>json_type := False\<rparr>"]
  by (simp add: app_def express_pipeline_def express_json_def post_signal_def routes_def
      handler_start_publishes stringify_empty_object handler_resume_simps)

end
